theory Spec2Isabelle
  imports Complex_Main "HOL-Library.Multiset"
begin

section \<open>Numbers and strings of the host language\<close>

text \<open>
  The scheduled job \<^verbatim>\<open>whatsapp-agenda-notifications.js\<close> is JavaScript. Its numbers are
  IEEE doubles; every minute count the layout code handles is an integer, and doubles are
  exact on integers below \<open>2 ^ 53\<close>, so minute counts are modelled as \<open>int\<close>.
  Strings are \<open>string\<close>.
\<close>

definition digit_char :: "nat \<Rightarrow> char" where
  "digit_char d = ''0123456789'' ! d"

definition digit_val :: "char \<Rightarrow> nat option" where
  "digit_val c =
     map_of [(CHR ''0'', 0), (CHR ''1'', 1), (CHR ''2'', 2), (CHR ''3'', 3), (CHR ''4'', 4),
             (CHR ''5'', 5), (CHR ''6'', 6), (CHR ''7'', 7), (CHR ''8'', 8), (CHR ''9'', 9)] c"

text \<open>\<^verbatim>\<open>n.toString()\<close> on a non-negative integer: its decimal digits, no leading zero.\<close>

fun digits :: "nat \<Rightarrow> string" where
  "digits n = (if n < 10 then [digit_char n] else digits (n div 10) @ [digit_char (n mod 10)])"

declare digits.simps [simp del]

text \<open>\<^verbatim>\<open>i.toString()\<close> on an integer: a minus sign in front of a negative one.\<close>

definition toString :: "int \<Rightarrow> string" where
  "toString i = (if i < 0 then CHR ''-'' # digits (nat (- i)) else digits (nat i))"

text \<open>\<^verbatim>\<open>s.padStart(2, '0')\<close>: zeros in front up to length two, longer strings unchanged.\<close>

definition padStart2 :: "string \<Rightarrow> string" where
  "padStart2 s = replicate (2 - length s) (CHR ''0'') @ s"

fun parse_digits :: "nat \<Rightarrow> string \<Rightarrow> nat option" where
  "parse_digits acc [] = Some acc"
| "parse_digits acc (c # cs) =
     (case digit_val c of None \<Rightarrow> None | Some d \<Rightarrow> parse_digits (acc * 10 + d) cs)"

text \<open>
  \<^verbatim>\<open>Number(s)\<close> on a string, restricted to the forms a time field can take: the empty
  string is \<open>0\<close>, and an optional sign followed by decimal digits is that integer. On every
  other string JavaScript yields \<open>NaN\<close> or reads a form not covered here (surrounding white
  space, a fraction, an exponent, a radix prefix, \<open>Infinity\<close>); \<open>None\<close> stands for all of
  these, and nothing below is claimed about them.
\<close>

definition Number_js :: "string \<Rightarrow> int option" where
  "Number_js s =
     (case s of
        [] \<Rightarrow> Some 0
      | c # cs \<Rightarrow>
          if c = CHR ''-'' then (if cs = [] then None else map_option (\<lambda>n. - int n) (parse_digits 0 cs))
          else if c = CHR ''+'' then (if cs = [] then None else map_option int (parse_digits 0 cs))
          else map_option int (parse_digits 0 s))"

text \<open>\<^verbatim>\<open>s.split(':')\<close>: the pieces between the colons; never the empty list.\<close>

fun split_colon :: "string \<Rightarrow> string list" where
  "split_colon [] = [[]]"
| "split_colon (c # cs) =
     (if c = CHR '':'' then [] # split_colon cs
      else (case split_colon cs of [] \<Rightarrow> [[c]] | p # ps \<Rightarrow> (c # p) # ps))"

text \<open>
  \<^verbatim>\<open>a % b\<close>: the remainder takes the sign of the dividend.
\<close>

definition js_rem :: "int \<Rightarrow> int \<Rightarrow> int" where
  "js_rem a b = sgn a * (\<bar>a\<bar> mod \<bar>b\<bar>)"

section \<open>Time utilities\<close>

text \<open>
  \<^verbatim>\<open>
  const timeToMinutes = (timeString) => {
    const [hours, minutes] = timeString.split(':').map(Number);
    return hours * 60 + minutes;
  };
  \<close>
  With fewer than two pieces \<^verbatim>\<open>minutes\<close> is undefined and the sum is \<open>NaN\<close>; pieces
  after the second (the seconds of \<^verbatim>\<open>HH:MM:SS\<close>) are ignored.
\<close>

definition timeToMinutes :: "string \<Rightarrow> int option" where
  "timeToMinutes timeString =
     (case map Number_js (split_colon timeString) of
        Some hours # Some minutes # _ \<Rightarrow> Some (hours * 60 + minutes)
      | _ \<Rightarrow> None)"

text \<open>
  \<^verbatim>\<open>
  const minutesToTime = (minutes) => {
    const hours = Math.floor(minutes / 60);
    const mins = minutes % 60;
    return `${hours.toString().padStart(2, '0')}:${mins.toString().padStart(2, '0')}`;
  };
  \<close>
  On integers \<^verbatim>\<open>Math.floor(minutes / 60)\<close> is the floor quotient \<open>minutes div 60\<close>.
\<close>

definition minutesToTime :: "int \<Rightarrow> string" where
  "minutesToTime minutes =
     (let hours = minutes div 60;
          mins = js_rem minutes 60
      in padStart2 (toString hours) @ '':'' @ padStart2 (toString mins))"

section \<open>Appointments as the job receives them\<close>

text \<open>
  The job reads appointments from the data source with their contact, service and member
  rows joined in; a join with no row is \<^verbatim>\<open>null\<close>, here \<open>None\<close>. The fields are named
  as in the source; those of the raw row carry the prefix \<open>apt_\<close>, the name of the
  variable that holds it, to keep them apart from the fields of the object built from it.
\<close>

record contact =
  first_name :: string
  last_name :: string

record service_info =
  service_name :: string
  duration_minutes :: "int option"

record raw_appointment =
  apt_start_time :: string
  apt_end_time :: "string option"
  apt_contacts :: "contact option"
  apt_services :: "service_info option"
  apt_status :: "string option"

record appointment =
  start_time :: string
  end_time :: string
  client :: string
  service :: string
  status :: string

text \<open>
  \<open>TypeError\<close> is the exception of reading a property of \<^verbatim>\<open>null\<close>. \<open>OutsideModel\<close> is
  not an event of the program: it marks an input on which a time string is not an integer
  time (see \<open>Number_js\<close>), where the program goes on with \<open>NaN\<close>.
\<close>

datatype failure = TypeError | OutsideModel

text \<open>A string is truthy unless it is missing or empty; a number unless missing or zero.\<close>

definition truthy_string :: "string option \<Rightarrow> bool" where
  "truthy_string v = (case v of None \<Rightarrow> False | Some s \<Rightarrow> s \<noteq> [])"

definition string_or :: "string option \<Rightarrow> string \<Rightarrow> string" where
  "string_or v dflt = (case v of None \<Rightarrow> dflt | Some s \<Rightarrow> if s = [] then dflt else s)"

text \<open>
  \<^verbatim>\<open>apt.services && apt.services.duration_minutes\<close>, when it is truthy: the service row is
  there and its duration is a number other than zero.
\<close>

definition truthy_duration :: "raw_appointment \<Rightarrow> int option" where
  "truthy_duration apt =
     (case apt_services apt of
        None \<Rightarrow> None
      | Some sv \<Rightarrow> (case duration_minutes sv of
                     None \<Rightarrow> None
                   | Some d \<Rightarrow> if d = 0 then None else Some d))"

text \<open>
  \<^verbatim>\<open>
  let endTime = apt.end_time;
  if (!endTime && apt.services && apt.services.duration_minutes) {
    const startMinutes = timeToMinutes(apt.start_time);
    const endMinutes = startMinutes + apt.services.duration_minutes;
    endTime = minutesToTime(endMinutes);
  } else if (!endTime) {
    const startMinutes = timeToMinutes(apt.start_time);
    endTime = minutesToTime(startMinutes + 30);
  }
  \<close>
\<close>

definition deriveEndTime :: "raw_appointment \<Rightarrow> failure + string" where
  "deriveEndTime apt =
     (if \<not> truthy_string (apt_end_time apt) \<and> truthy_duration apt \<noteq> None then
        (case (timeToMinutes (apt_start_time apt), truthy_duration apt) of
           (Some startMinutes, Some d) \<Rightarrow> Inr (minutesToTime (startMinutes + d))
         | _ \<Rightarrow> Inl OutsideModel)
      else if \<not> truthy_string (apt_end_time apt) then
        (case timeToMinutes (apt_start_time apt) of
           Some startMinutes \<Rightarrow> Inr (minutesToTime (startMinutes + 30))
         | None \<Rightarrow> Inl OutsideModel)
      else Inr (string_or (apt_end_time apt) []))"

text \<open>
  The callback of \<^verbatim>\<open>group.appointments.map\<close>: after the end time,
  \<^verbatim>\<open>
  return {
    start_time: apt.start_time,
    end_time: endTime,
    client: `${apt.contacts.first_name} ${apt.contacts.last_name}`,
    service: apt.services.name,
    status: apt.status || 'programada'
  };
  \<close>
  The reads of \<^verbatim>\<open>apt.contacts.first_name\<close> and \<^verbatim>\<open>apt.services.name\<close> throw when the
  joined row is \<^verbatim>\<open>null\<close>.
\<close>

definition normalizeAppointment :: "raw_appointment \<Rightarrow> failure + appointment" where
  "normalizeAppointment apt =
     (case deriveEndTime apt of
        Inl f \<Rightarrow> Inl f
      | Inr endTime \<Rightarrow>
          (case apt_contacts apt of
             None \<Rightarrow> Inl TypeError
           | Some c \<Rightarrow>
               (case apt_services apt of
                  None \<Rightarrow> Inl TypeError
                | Some sv \<Rightarrow>
                    Inr \<lparr>start_time = apt_start_time apt,
                         end_time = endTime,
                         client = first_name c @ '' '' @ last_name c,
                         service = service_name sv,
                         status = string_or (apt_status apt) ''programada''\<rparr>)))"

section \<open>Members\<close>

text \<open>
  \<^verbatim>\<open>memberGroups\<close> is an object keyed by member; \<^verbatim>\<open>Object.values\<close> lists its groups in
  the order the keys were added, and the model takes that list. Each group carries the
  member's profile and the raw appointments.
  \<^verbatim>\<open>
  const members = Object.values(memberGroups).map(group => ({
    id: group.member.id || 'unknown',
    name: `${group.member.first_name} ${group.member.last_name}`,
    appointments: group.appointments.map(apt => { ... })
  }));
  \<close>
\<close>

record member_group =
  profile_id :: "string option"
  profile_first_name :: string
  profile_last_name :: string
  group_appointments :: "raw_appointment list"

record member =
  member_id :: string
  member_name :: string
  appointments :: "appointment list"

text \<open>\<^verbatim>\<open>xs.map(f)\<close> where \<open>f\<close> may throw: the first failure ends the whole map.\<close>

fun map_failing :: "('a \<Rightarrow> failure + 'b) \<Rightarrow> 'a list \<Rightarrow> failure + 'b list" where
  "map_failing f [] = Inr []"
| "map_failing f (x # xs) =
     (case f x of
        Inl e \<Rightarrow> Inl e
      | Inr y \<Rightarrow> (case map_failing f xs of Inl e \<Rightarrow> Inl e | Inr ys \<Rightarrow> Inr (y # ys)))"

definition buildMember :: "member_group \<Rightarrow> failure + member" where
  "buildMember grp =
     (case map_failing normalizeAppointment (group_appointments grp) of
        Inl e \<Rightarrow> Inl e
      | Inr apts \<Rightarrow>
          Inr \<lparr>member_id = string_or (profile_id grp) ''unknown'',
               member_name = profile_first_name grp @ '' '' @ profile_last_name grp,
               appointments = apts\<rparr>)"

definition buildMembers :: "member_group list \<Rightarrow> failure + member list" where
  "buildMembers memberGroups = map_failing buildMember memberGroups"

section \<open>View window\<close>

text \<open>
  \<^verbatim>\<open>
  let earliestTime = 24 * 60;
  let latestTime = 0;
  members.forEach(member => {
    member.appointments.forEach(appointment => {
      const startMin = timeToMinutes(appointment.start_time);
      const endMin = timeToMinutes(appointment.end_time);
      if (startMin < earliestTime) earliestTime = startMin;
      if (endMin > latestTime) latestTime = endMin;
    });
  });
  \<close>
  The scan is a loop over all appointments of all members, in order, on the pair
  \<open>(earliestTime, latestTime)\<close>.
\<close>

definition parseTimes :: "appointment \<Rightarrow> (int \<times> int) option" where
  "parseTimes appointment =
     (case (timeToMinutes (start_time appointment), timeToMinutes (end_time appointment)) of
        (Some startMin, Some endMin) \<Rightarrow> Some (startMin, endMin)
      | _ \<Rightarrow> None)"

fun scanTimes :: "int \<times> int \<Rightarrow> (int \<times> int) list \<Rightarrow> int \<times> int" where
  "scanTimes (earliestTime, latestTime) [] = (earliestTime, latestTime)"
| "scanTimes (earliestTime, latestTime) ((startMin, endMin) # rest) =
     scanTimes (if startMin < earliestTime then startMin else earliestTime,
                if endMin > latestTime then endMin else latestTime) rest"

text \<open>
  \<^verbatim>\<open>
  if (earliestTime === 24 * 60) {
    earliestTime = 8 * 60;
    latestTime = 18 * 60;
  } else {
    earliestTime = Math.max(0, earliestTime - 60);
    latestTime = Math.min(24 * 60, latestTime + 60);
  }
  const startHour = Math.floor(earliestTime / 60);
  const endHour = Math.ceil(latestTime / 60);
  const totalMinutes = (endHour - startHour) * 60;
  \<close>
  On integers \<^verbatim>\<open>Math.ceil(x / 60)\<close> is \<open>- (- x div 60)\<close>.
\<close>

record window =
  startHour :: int
  endHour :: int
  totalMinutes :: int

definition windowOfTimes :: "(int \<times> int) list \<Rightarrow> window" where
  "windowOfTimes minuteTimes =
     (case scanTimes (24 * 60, 0) minuteTimes of
        (earliestTime, latestTime) \<Rightarrow>
          (case (if earliestTime = 24 * 60 then (8 * 60, 18 * 60)
                 else (max 0 (earliestTime - 60), min (24 * 60) (latestTime + 60))) of
             (earliestTime', latestTime') \<Rightarrow>
               \<lparr>startHour = earliestTime' div 60,
                endHour = - (- latestTime' div 60),
                totalMinutes = (- (- latestTime' div 60) - earliestTime' div 60) * 60\<rparr>))"

text \<open>All appointments of all members, in the order the scan visits them.\<close>

definition allAppointments :: "member list \<Rightarrow> appointment list" where
  "allAppointments members = concat (map appointments members)"

fun those_list :: "'a option list \<Rightarrow> 'a list option" where
  "those_list [] = Some []"
| "those_list (x # xs) =
     (case x of None \<Rightarrow> None
      | Some y \<Rightarrow> (case those_list xs of None \<Rightarrow> None | Some ys \<Rightarrow> Some (y # ys)))"

text \<open>The window of the engine; \<open>None\<close> when some time string is outside the model.\<close>

definition computeWindow :: "member list \<Rightarrow> window option" where
  "computeWindow members =
     map_option windowOfTimes (those_list (map parseTimes (allAppointments members)))"

section \<open>Column assignment\<close>

text \<open>
  An appointment with its column: \<^verbatim>\<open>{...appointment, column, startMinutes: startMin,
  endMinutes: endMin, duration: endMin - startMin}\<close>.
\<close>

record placed = appointment +
  column :: nat
  startMinutes :: int
  endMinutes :: int
  duration :: int

text \<open>
  The test inside \<^verbatim>\<open>appointmentsWithColumns.some\<close>, without the column:
  \<^verbatim>\<open>!(endMin <= timeToMinutes(existing.start_time) ||
    startMin >= timeToMinutes(existing.end_time))\<close>.
  The times of \<open>existing\<close> are read again from its strings. Every entry of the list was
  placed after both strings were read, so the last case is never reached from
  \<open>placeAppointments\<close>; it has the value the comparisons have on \<open>NaN\<close>.
\<close>

definition conflicts :: "int \<Rightarrow> int \<Rightarrow> placed \<Rightarrow> bool" where
  "conflicts startMin endMin existing =
     (case (timeToMinutes (start_time existing), timeToMinutes (end_time existing)) of
        (Some s, Some e) \<Rightarrow> \<not> (endMin \<le> s \<or> startMin \<ge> e)
      | _ \<Rightarrow> True)"

text \<open>
  \<^verbatim>\<open>
  let column = 0;
  while (appointmentsWithColumns.some(existing =>
    existing.column === column && !( ... ))) {
    column++;
  }
  \<close>
  The loop ends: each round passes one more entry of the finite list.
\<close>

function findColumn :: "placed list \<Rightarrow> int \<Rightarrow> int \<Rightarrow> nat \<Rightarrow> nat" where
  "findColumn appointmentsWithColumns startMin endMin col =
     (if list_ex (\<lambda>existing. column existing = col \<and> conflicts startMin endMin existing)
           appointmentsWithColumns
      then findColumn appointmentsWithColumns startMin endMin (Suc col)
      else col)"
  by pat_completeness auto
termination
proof (relation "measure (\<lambda>(ps, s, e, col). length (filter (\<lambda>p. col \<le> column p) ps))")
  show "wf (measure (\<lambda>(ps, s, e, col). length (filter (\<lambda>p. col \<le> column p) ps)))"
    by simp
next
  fix ps :: "placed list" and s e :: int and col :: nat
  assume "list_ex (\<lambda>existing. column existing = col \<and> conflicts s e existing) ps"
  then obtain p where p: "p \<in> set ps" "column p = col"
    by (auto simp: list_ex_iff)
  let ?Q = "filter (\<lambda>p. col \<le> column p) ps"
  have "p \<in> set ?Q" using p by simp
  moreover have "\<not> Suc col \<le> column p" using p by simp
  ultimately have "length (filter (\<lambda>p. Suc col \<le> column p) ?Q) < length ?Q"
    by (rule length_filter_less)
  moreover have "filter (\<lambda>p. Suc col \<le> column p) ?Q = filter (\<lambda>p. Suc col \<le> column p) ps"
    by (auto intro: filter_cong)
  ultimately show "((ps, s, e, Suc col), (ps, s, e, col))
      \<in> measure (\<lambda>(ps, s, e, col). length (filter (\<lambda>p. col \<le> column p) ps))"
    by simp
qed

declare findColumn.simps [simp del]

text \<open>
  The body of \<^verbatim>\<open>sortedAppointments.forEach\<close>: read the two times, search the column,
  push the entry. \<open>None\<close> when a time string is outside the model.
\<close>

fun placeAppointments :: "placed list \<Rightarrow> appointment list \<Rightarrow> placed list option" where
  "placeAppointments appointmentsWithColumns [] = Some appointmentsWithColumns"
| "placeAppointments appointmentsWithColumns (appointment # rest) =
     (case (timeToMinutes (start_time appointment), timeToMinutes (end_time appointment)) of
        (Some startMin, Some endMin) \<Rightarrow>
          placeAppointments
            (appointmentsWithColumns @
               [\<lparr>start_time = start_time appointment,
                 end_time = end_time appointment,
                 client = client appointment,
                 service = service appointment,
                 status = status appointment,
                 column = findColumn appointmentsWithColumns startMin endMin 0,
                 startMinutes = startMin,
                 endMinutes = endMin,
                 duration = endMin - startMin\<rparr>])
            rest
      | _ \<Rightarrow> None)"

text \<open>
  \<^verbatim>\<open>
  const sortedAppointments = [...member.appointments].sort((a, b) =>
    timeToMinutes(a.start_time) - timeToMinutes(b.start_time));
  \<close>
  \<^verbatim>\<open>Array.prototype.sort\<close> is stable, and so is \<open>sort_key\<close>: with a comparator that is a
  difference of integer keys the result is the one stable arrangement by ascending key.
  The key is read only when every start time is an integer time.
\<close>

definition startKey :: "appointment \<Rightarrow> int" where
  "startKey a = (case timeToMinutes (start_time a) of Some s \<Rightarrow> s | None \<Rightarrow> 0)"

definition sortAppointments :: "appointment list \<Rightarrow> appointment list option" where
  "sortAppointments apts =
     (if list_all (\<lambda>a. timeToMinutes (start_time a) \<noteq> None) apts
      then Some (sort_key startKey apts) else None)"

text \<open>
  \<^verbatim>\<open>Math.max(...appointmentsWithColumns.map(apt => apt.column), 0) + 1\<close>
\<close>

definition maxColumnsOf :: "placed list \<Rightarrow> nat" where
  "maxColumnsOf appointmentsWithColumns = fold max (map column appointmentsWithColumns) 0 + 1"

record processed_member =
  pm_id :: string
  pm_name :: string
  pm_appointments :: "placed list"
  maxColumns :: nat

definition assignColumns :: "appointment list \<Rightarrow> placed list option" where
  "assignColumns apts =
     (case sortAppointments apts of
        None \<Rightarrow> None
      | Some sortedAppointments \<Rightarrow> placeAppointments [] sortedAppointments)"

definition processMember :: "member \<Rightarrow> processed_member option" where
  "processMember m =
     (case assignColumns (appointments m) of
        None \<Rightarrow> None
      | Some appointmentsWithColumns \<Rightarrow>
          Some \<lparr>pm_id = member_id m,
                pm_name = member_name m,
                pm_appointments = appointmentsWithColumns,
                maxColumns = maxColumnsOf appointmentsWithColumns\<rparr>)"

text \<open>
  What the claims compare the columns with: the appointments running at an instant, an
  appointment running from its start (included) to its end (excluded), and the largest
  such number over the instants at which an appointment starts.
\<close>

definition activeAt :: "int \<Rightarrow> placed \<Rightarrow> bool" where
  "activeAt t p = (startMinutes p \<le> t \<and> t < endMinutes p)"

definition activeCount :: "int \<Rightarrow> placed list \<Rightarrow> nat" where
  "activeCount t ps = length (filter (activeAt t) ps)"

definition maxActive :: "placed list \<Rightarrow> nat" where
  "maxActive ps = fold max (map (\<lambda>p. activeCount (startMinutes p) ps) ps) 0"

text \<open>
  The same count on the member's own appointments, from their time strings: an
  appointment runs at \<open>t\<close> when its start is at or before \<open>t\<close> and its end after.
\<close>

definition running :: "int \<Rightarrow> appointment \<Rightarrow> bool" where
  "running t a =
     (case parseTimes a of Some (s, e) \<Rightarrow> s \<le> t \<and> t < e | None \<Rightarrow> False)"

definition runningCount :: "int \<Rightarrow> appointment list \<Rightarrow> nat" where
  "runningCount t apts = length (filter (running t) apts)"

definition overlap :: "placed \<Rightarrow> placed \<Rightarrow> bool" where
  "overlap p q = (startMinutes p < endMinutes q \<and> startMinutes q < endMinutes p)"

text \<open>
  Three properties of a list of placed appointments, used to state what the pass
  guarantees: the stored minutes are those of the strings; two entries in one column do
  not overlap; and every entry has, in each lower column, an earlier entry it overlaps.
\<close>

definition consistent :: "placed \<Rightarrow> bool" where
  "consistent p = (timeToMinutes (start_time p) = Some (startMinutes p)
                   \<and> timeToMinutes (end_time p) = Some (endMinutes p))"

definition columnsSound :: "placed list \<Rightarrow> bool" where
  "columnsSound ps = (\<forall>j<length ps. \<forall>i<j. column (ps ! i) = column (ps ! j) \<longrightarrow> \<not> overlap (ps ! i) (ps ! j))"

definition columnsTight :: "placed list \<Rightarrow> bool" where
  "columnsTight ps = (\<forall>j<length ps. \<forall>c<column (ps ! j). \<exists>i<j. column (ps ! i) = c \<and> overlap (ps ! i) (ps ! j))"

text \<open>An appointment for the worked examples.\<close>

definition sampleAppointment :: "string \<Rightarrow> string \<Rightarrow> appointment" where
  "sampleAppointment s e =
     \<lparr>start_time = s, end_time = e, client = ''Ana Ruiz'', service = ''Corte'',
      status = ''programada''\<rparr>"

definition sampleMember :: "appointment list \<Rightarrow> member" where
  "sampleMember apts = \<lparr>member_id = ''m1'', member_name = ''Luz Mora'', appointments = apts\<rparr>"

section \<open>Status styles and the class of an appointment\<close>

text \<open>
  \<^verbatim>\<open>APPOINTMENT_STATES\<close> is an object literal; \<^verbatim>\<open>Object.entries\<close> lists its entries in
  the order written. The last label has a letter outside ASCII, given by its two bytes.
\<close>

record state_style =
  label :: string
  bgColor :: string
  borderColor :: string
  textColor :: string

definition APPOINTMENT_STATES :: "(string \<times> state_style) list" where
  "APPOINTMENT_STATES =
     [(''programada'', \<lparr>label = ''Programada'', bgColor = ''#f3f4f6'',
                         borderColor = ''#9ca3af'', textColor = ''#374151''\<rparr>),
      (''confirmada'', \<lparr>label = ''Confirmada'', bgColor = ''#dcfce7'',
                         borderColor = ''#16a34a'', textColor = ''#166534''\<rparr>),
      (''en_curso'', \<lparr>label = ''En curso'', bgColor = ''#e0e7ff'',
                       borderColor = ''#6366f1'', textColor = ''#4338ca''\<rparr>),
      (''completada'', \<lparr>label = ''Completada'', bgColor = ''#dbeafe'',
                         borderColor = ''#3b82f6'', textColor = ''#1e40af''\<rparr>),
      (''cancelada'', \<lparr>label = ''Cancelada'', bgColor = ''#fee2e2'',
                        borderColor = ''#dc2626'', textColor = ''#991b1b''\<rparr>),
      (''no_asistio'', \<lparr>label = ''No asisti'' @ [CHR 0xC3, CHR 0xB3], bgColor = ''#fed7aa'',
                         borderColor = ''#ea580c'', textColor = ''#9a3412''\<rparr>)]"

text \<open>
  The style sheet gets one rule per entry,
  \<^verbatim>\<open>.appointment.${status} { background: ${config.bgColor}; border-color:
  ${config.borderColor}; color: ${config.textColor}; }\<close>:
  its selector and its three declarations. No other rule of the sheet sets the colours
  of an appointment.
\<close>

definition statusRules :: "(string \<times> (string \<times> string) list) list" where
  "statusRules =
     map (\<lambda>(status, config).
            (''.appointment.'' @ status,
             [(''background'', bgColor config), (''border-color'', borderColor config),
              (''color'', textColor config)]))
         APPOINTMENT_STATES"

text \<open>
  The class attribute of an appointment:
  \<^verbatim>\<open>appointment ${appointment.status} ${hasOverlap ? 'appointment-overlap' : ''}
  ${appointment.column > 0 ? 'column-' + appointment.column : ''}\<close>
  with \<^verbatim>\<open>hasOverlap = member.maxColumns > 1\<close>.
\<close>

definition appointmentClass :: "processed_member \<Rightarrow> placed \<Rightarrow> string" where
  "appointmentClass m appointment =
     ''appointment '' @ status appointment @ '' ''
       @ (if maxColumns m > 1 then ''appointment-overlap'' else [])
       @ '' ''
       @ (if column appointment > 0 then ''column-'' @ digits (column appointment) else [])"

section \<open>Pixel geometry\<close>

text \<open>
  The quotient and the product of the geometry are operations on doubles, each rounded
  to the nearest double, ties to the even significand. A finite double other than zero
  is \<open>n * 2 ^ k\<close> for integers \<open>n\<close> and \<open>k\<close>, here the pair \<open>(n, k)\<close>; zero is
  \<open>(0, 0)\<close>. The exponent range of doubles is not modelled: the values here are
  quotients and products of integers below \<open>2 ^ 53\<close>, far from its ends.
\<close>

type_synonym double = "int \<times> int"

definition double_value :: "double \<Rightarrow> rat" where
  "double_value d =
     (case d of (n, k) \<Rightarrow>
        if 0 \<le> k then of_int n * 2 ^ nat k else of_int n / 2 ^ nat (- k))"

text \<open>The number of binary digits of a positive integer.\<close>

function bit_length :: "int \<Rightarrow> nat" where
  "bit_length n = (if n \<le> 0 then 0 else Suc (bit_length (n div 2)))"
  by pat_completeness auto
termination
  by (relation "measure nat") auto

declare bit_length.simps [simp del]

text \<open>For \<open>p, q > 0\<close>: the integer \<open>e\<close> with \<open>2 ^ e \<le> p / q < 2 ^ (e + 1)\<close>.\<close>

definition floor_log2 :: "int \<Rightarrow> int \<Rightarrow> int" where
  "floor_log2 p q =
     (let e0 = int (bit_length p) - int (bit_length q)
      in if (if 0 \<le> e0 then q * 2 ^ nat e0 \<le> p else q \<le> p * 2 ^ nat (- e0))
         then e0 else e0 - 1)"

text \<open>
  For \<open>p, q > 0\<close>: \<open>p / q\<close> rounded to 53 significant bits, the nearest value, a tie
  going to the even significand.
\<close>

definition round_fraction :: "int \<Rightarrow> int \<Rightarrow> double" where
  "round_fraction p q =
     (let k = floor_log2 p q - 52;
          num = (if k \<le> 0 then p * 2 ^ nat (- k) else p);
          den = (if k \<le> 0 then q else q * 2 ^ nat k);
          n0 = num div den;
          r = num mod den
      in (if 2 * r < den then n0
          else if den < 2 * r then n0 + 1
          else if even n0 then n0 else n0 + 1, k))"

text \<open>
  \<^verbatim>\<open>a / b\<close> on integers; \<open>None\<close> when \<open>b\<close> is zero, where the result is an infinity or
  \<open>NaN\<close>.
\<close>

definition js_div :: "int \<Rightarrow> int \<Rightarrow> double option" where
  "js_div a b =
     (if b = 0 then None
      else if a = 0 then Some (0, 0)
      else (case round_fraction \<bar>a\<bar> \<bar>b\<bar> of (n, k) \<Rightarrow> Some (sgn a * sgn b * n, k)))"

text \<open>\<^verbatim>\<open>x * h\<close> for a double \<open>x\<close> and an integer \<open>h\<close>.\<close>

definition js_mul :: "double \<Rightarrow> int \<Rightarrow> double" where
  "js_mul x h =
     (case x of (n, k) \<Rightarrow>
        if n = 0 \<or> h = 0 then (0, 0)
        else (case (if 0 \<le> k then round_fraction (\<bar>n\<bar> * \<bar>h\<bar> * 2 ^ nat k) 1
                    else round_fraction (\<bar>n\<bar> * \<bar>h\<bar>) (2 ^ nat (- k))) of
                (n', k') \<Rightarrow> (sgn n * sgn h * n', k')))"

text \<open>
  \<^verbatim>\<open>
  const topPosition = ((appointment.startMinutes - startMinutes) / totalMinutes)
    * ((endHour - startHour) * 120);
  const height = (appointment.duration / totalMinutes) * ((endHour - startHour) * 120);
  \<close>
  with \<^verbatim>\<open>startMinutes = startHour * 60\<close>.
\<close>

definition topPosition :: "window \<Rightarrow> placed \<Rightarrow> double option" where
  "topPosition w appointment =
     map_option (\<lambda>x. js_mul x ((endHour w - startHour w) * 120))
       (js_div (startMinutes appointment - startHour w * 60) (totalMinutes w))"

definition height :: "window \<Rightarrow> placed \<Rightarrow> double option" where
  "height w appointment =
     map_option (\<lambda>x. js_mul x ((endHour w - startHour w) * 120))
       (js_div (duration appointment) (totalMinutes w))"

section \<open>The layout engine\<close>

text \<open>
  What \<^verbatim>\<open>generateAgendaHTML\<close> computes before it writes the markup: the members, the
  window and the members with their columns.
\<close>

record layout =
  lay_window :: window
  lay_members :: "processed_member list"

definition layoutEngine :: "member_group list \<Rightarrow> failure + layout" where
  "layoutEngine memberGroups =
     (case buildMembers memberGroups of
        Inl e \<Rightarrow> Inl e
      | Inr members \<Rightarrow>
          (case (computeWindow members, those_list (map processMember members)) of
             (Some w, Some processedMembers) \<Rightarrow>
               Inr \<lparr>lay_window = w, lay_members = processedMembers\<rparr>
           | _ \<Rightarrow> Inl OutsideModel))"

section \<open>The scheduled job\<close>

text \<open>
  The handler's loop over \<^verbatim>\<open>configsToProcess\<close>. What the outside world answers for one
  organization is given with its configuration: the appointments query (an error,
  \<^verbatim>\<open>null\<close>, or a number of rows), \<^verbatim>\<open>generateAgendaImage\<close> (an exception, or the URL
  or \<^verbatim>\<open>null\<close> it returns) and \<^verbatim>\<open>fetch\<close> of the webhook (a rejected promise with its
  message, or a response with its \<^verbatim>\<open>ok\<close> flag).
\<close>

datatype query_outcome = QueryError | QueryNull | QueryRows nat

datatype image_outcome = ImageThrows string | ImageReturns "string option"

datatype fetch_outcome = FetchRejects string | FetchResponds bool

record config_run =
  organization_name :: string
  recipient_phone :: string
  appointments_query :: query_outcome
  image_generation :: image_outcome
  webhook_fetch :: fetch_outcome

text \<open>
  The entries pushed on \<^verbatim>\<open>results\<close>, by their shape:
  \<^verbatim>\<open>{organization, success: false, error, appointments_count}\<close>,
  \<^verbatim>\<open>{organization, status: 'success', appointments_count, recipient}\<close>,
  \<^verbatim>\<open>{organization, status: 'skipped', reason: 'image_generation_failed',
  appointments_count}\<close> and \<^verbatim>\<open>{organization, status: 'error', error}\<close>.
\<close>

datatype result_entry =
    ImageFailed string string nat
  | StatusSuccess string nat string
  | StatusSkipped string nat
  | StatusError string string

text \<open>The console, by level, with the fixed part of each message.\<close>

datatype log_line = ConsoleLog string | ConsoleError string

record job_state =
  results :: "result_entry list"
  console :: "log_line list"
  fetch_calls :: nat

definition say :: "log_line list \<Rightarrow> job_state \<Rightarrow> job_state" where
  "say ls st = st\<lparr>console := console st @ ls\<rparr>"

definition push :: "result_entry \<Rightarrow> job_state \<Rightarrow> job_state" where
  "push r st = st\<lparr>results := results st @ [r]\<rparr>"

text \<open>
  One round of \<^verbatim>\<open>for (const config of configsToProcess) { try { ... } catch (error)
  { ... } }\<close>. A query error and an empty day \<^verbatim>\<open>continue\<close> with no entry. An exception of
  the image generation is caught by the inner \<^verbatim>\<open>try\<close>. The webhook is fetched once,
  with \<^verbatim>\<open>await\<close>, only when the image URL is truthy; a rejected fetch is an exception
  of the round and reaches the outer \<^verbatim>\<open>catch\<close>; a response that is not \<^verbatim>\<open>ok\<close> is
  written to the console and the round goes on to push its entry.
\<close>

definition processConfig :: "config_run \<Rightarrow> job_state \<Rightarrow> job_state" where
  "processConfig config st0 =
     (let st = say [ConsoleLog ''Processing organization''] st0 in
      case appointments_query config of
        QueryError \<Rightarrow> say [ConsoleError ''Error fetching appointments''] st
      | QueryNull \<Rightarrow> say [ConsoleLog ''Found appointments'', ConsoleLog ''No appointments''] st
      | QueryRows n \<Rightarrow>
          if n = 0 then say [ConsoleLog ''Found appointments'', ConsoleLog ''No appointments''] st
          else
            (case image_generation config of
               ImageThrows msg \<Rightarrow>
                 push (ImageFailed (organization_name config)
                         (''Image generation failed: '' @ msg) n)
                   (say [ConsoleLog ''Found appointments'', ConsoleLog ''Generating agenda image'',
                         ConsoleError ''Failed to generate image'',
                         ConsoleError ''Image error details''] st)
             | ImageReturns imageUrl \<Rightarrow>
                 (let st1 = say [ConsoleLog ''Found appointments'',
                                 ConsoleLog ''Generating agenda image'',
                                 ConsoleLog ''Image generated successfully''] st in
                  if truthy_string imageUrl then
                    (let st2 = (say [ConsoleLog ''Sending webhook'', ConsoleLog ''Recipient''] st1)
                                 \<lparr>fetch_calls := Suc (fetch_calls st1)\<rparr> in
                     case webhook_fetch config of
                       FetchRejects msg \<Rightarrow>
                         push (StatusError (organization_name config) msg)
                           (say [ConsoleError ''Error processing''] st2)
                     | FetchResponds ok \<Rightarrow>
                         push (StatusSuccess (organization_name config) n (recipient_phone config))
                           (say (if \<not> ok then [ConsoleError ''Webhook failed'',
                                                 ConsoleLog ''Payload was'']
                                 else [ConsoleLog ''Webhook sent successfully'']) st2))
                  else
                    push (StatusSkipped (organization_name config) n)
                      (say [ConsoleLog ''Skipping webhook''] st1))))"

text \<open>
  The handler from the point where the configurations are known: the query for them
  failed (the exception reaches the outer \<^verbatim>\<open>catch\<close>, status 500), there is none, or
  \<open>configsToProcess\<close> is the list left by the filter on the hour. After the loop the
  handler answers 200 with the results.
\<close>

datatype configs_outcome = ConfigsError string | ConfigsNone | ConfigsToProcess "config_run list"

record handler_response =
  statusCode :: nat
  message :: string
  response_results :: "result_entry list"

definition runConfigs :: "config_run list \<Rightarrow> job_state" where
  "runConfigs configsToProcess =
     fold processConfig configsToProcess \<lparr>results = [], console = [], fetch_calls = 0\<rparr>"

definition handler :: "configs_outcome \<Rightarrow> handler_response" where
  "handler outcome =
     (case outcome of
        ConfigsError msg \<Rightarrow>
          \<lparr>statusCode = 500, message = msg, response_results = []\<rparr>
      | ConfigsNone \<Rightarrow>
          \<lparr>statusCode = 200, message = ''No configurations found'', response_results = []\<rparr>
      | ConfigsToProcess configsToProcess \<Rightarrow>
          if configsToProcess = [] then
            \<lparr>statusCode = 200, message = ''No configurations for current hour'',
             response_results = []\<rparr>
          else
            \<lparr>statusCode = 200, message = ''WhatsApp agenda notifications processed'',
             response_results = results (runConfigs configsToProcess)\<rparr>)"

text \<open>A day of one member for the worked example of the geometry.\<close>

definition sampleGroup :: member_group where
  "sampleGroup =
     \<lparr>profile_id = Some ''m1'', profile_first_name = ''Luz'', profile_last_name = ''Mora'',
      group_appointments =
        [\<lparr>apt_start_time = ''09:00'', apt_end_time = None,
          apt_contacts = Some \<lparr>first_name = ''Ana'', last_name = ''Ruiz''\<rparr>,
          apt_services = Some \<lparr>service_name = ''Corte'', duration_minutes = Some 30\<rparr>,
          apt_status = Some ''confirmada''\<rparr>,
         \<lparr>apt_start_time = ''10:00'', apt_end_time = None,
          apt_contacts = Some \<lparr>first_name = ''Eva'', last_name = ''Sanz''\<rparr>,
          apt_services = Some \<lparr>service_name = ''Color'', duration_minutes = Some 60\<rparr>,
          apt_status = None\<rparr>,
         \<lparr>apt_start_time = ''16:30'', apt_end_time = Some ''17:00'',
          apt_contacts = Some \<lparr>first_name = ''Leo'', last_name = ''Diaz''\<rparr>,
          apt_services = Some \<lparr>service_name = ''Barba'', duration_minutes = None\<rparr>,
          apt_status = Some ''programada''\<rparr>]\<rparr>"

section \<open>Properties of the time utilities\<close>

lemma digit_val_digit_char: "d < 10 \<Longrightarrow> digit_val (digit_char d) = Some d"
proof -
  assume "d < 10"
  then have "d = 0 \<or> d = 1 \<or> d = 2 \<or> d = 3 \<or> d = 4 \<or> d = 5 \<or> d = 6 \<or> d = 7 \<or> d = 8 \<or> d = 9"
    by arith
  then show ?thesis
    by (elim disjE) (simp_all add: digit_char_def digit_val_def)
qed

lemma digit_char_plain: "d < 10 \<Longrightarrow> digit_char d \<noteq> CHR '':'' \<and> digit_char d \<noteq> CHR ''-'' \<and> digit_char d \<noteq> CHR ''+''"
proof -
  assume "d < 10"
  then have "d = 0 \<or> d = 1 \<or> d = 2 \<or> d = 3 \<or> d = 4 \<or> d = 5 \<or> d = 6 \<or> d = 7 \<or> d = 8 \<or> d = 9"
    by arith
  then show ?thesis
    by (elim disjE) (simp_all add: digit_char_def)
qed

lemma parse_digits_snoc:
  "parse_digits acc (cs @ [c]) =
     (case parse_digits acc cs of None \<Rightarrow> None
      | Some a \<Rightarrow> (case digit_val c of None \<Rightarrow> None | Some d \<Rightarrow> Some (a * 10 + d)))"
  by (induction cs arbitrary: acc) (auto split: option.splits)

lemma parse_digits_digits: "parse_digits 0 (digits n) = Some n"
proof (induction n rule: digits.induct)
  case (1 n)
  show ?case
  proof (cases "n < 10")
    case True
    then show ?thesis
      by (subst digits.simps) (simp add: digit_val_digit_char)
  next
    case False
    then have "parse_digits 0 (digits (n div 10)) = Some (n div 10)"
      using "1.IH" by simp
    with False show ?thesis
      by (subst digits.simps) (simp add: parse_digits_snoc digit_val_digit_char)
  qed
qed

lemma digits_nonempty: "digits n \<noteq> []"
  by (subst digits.simps) simp

lemma digits_plain: "c \<in> set (digits n) \<Longrightarrow> c \<noteq> CHR '':'' \<and> c \<noteq> CHR ''-'' \<and> c \<noteq> CHR ''+''"
proof (induction n rule: digits.induct)
  case (1 n)
  show ?case
  proof (cases "n < 10")
    case True
    with "1.prems" have "c = digit_char n"
      by (subst (asm) digits.simps) simp
    then show ?thesis
      using digit_char_plain [OF True] by simp
  next
    case False
    with "1.prems" have "c = digit_char (n mod 10) \<or> c \<in> set (digits (n div 10))"
      by (subst (asm) digits.simps) simp
    then show ?thesis
    proof
      assume "c \<in> set (digits (n div 10))"
      then show ?thesis
        by (rule "1.IH" [OF False])
    next
      assume "c = digit_char (n mod 10)"
      then show ?thesis
        using digit_char_plain [of "n mod 10"] by simp
    qed
  qed
qed

lemma parse_digits_zeros: "parse_digits 0 (replicate k (CHR ''0'') @ s) = parse_digits 0 s"
  by (induction k) (simp_all add: digit_val_def)

lemma Number_js_padStart2_digits: "Number_js (padStart2 (digits n)) = Some (int n)"
proof -
  obtain c cs where s: "digits n = c # cs"
    using digits_nonempty [of n] by (cases "digits n") auto
  have plain: "c \<noteq> CHR ''-'' \<and> c \<noteq> CHR ''+''"
    using digits_plain [of c n] s by simp
  show ?thesis
  proof (cases "length (digits n) < 2")
    case True
    with s have cs: "cs = []" by (cases cs) auto
    have pad: "padStart2 (digits n) = CHR ''0'' # digits n"
      using s cs by (simp add: padStart2_def)
    have "parse_digits 0 (CHR ''0'' # digits n) = Some n"
      using parse_digits_zeros [of 1 "digits n"] parse_digits_digits [of n] by simp
    then show ?thesis
      unfolding pad by (simp add: Number_js_def)
  next
    case False
    then have pad: "padStart2 (digits n) = digits n"
      by (simp add: padStart2_def)
    show ?thesis
      unfolding pad using s plain parse_digits_digits [of n]
      by (simp add: Number_js_def)
  qed
qed

lemma padStart2_digits_plain:
  "c \<in> set (padStart2 (digits n)) \<Longrightarrow> c \<noteq> CHR '':''"
  using digits_plain [of c n] by (auto simp: padStart2_def)

lemma split_colon_plain: "CHR '':'' \<notin> set s \<Longrightarrow> split_colon s = [s]"
  by (induction s) auto

lemma split_colon_append:
  "CHR '':'' \<notin> set a \<Longrightarrow> split_colon (a @ CHR '':'' # b) = a # split_colon b"
  by (induction a) auto

lemma minutesToTime_nonneg:
  assumes "0 \<le> n"
  shows "minutesToTime n = padStart2 (digits (nat (n div 60))) @ '':'' @ padStart2 (digits (nat (n mod 60)))"
proof -
  have "js_rem n 60 = n mod 60"
    using assms by (cases "n = 0") (simp_all add: js_rem_def sgn_if)
  moreover have "\<not> n div 60 < 0"
    using assms by (simp add: pos_imp_zdiv_nonneg_iff)
  moreover have "\<not> n mod 60 < 0"
    by (simp add: not_less)
  ultimately show ?thesis
    by (simp add: minutesToTime_def toString_def Let_def)
qed

lemma timeToMinutes_minutesToTime:
  assumes "0 \<le> n"
  shows "timeToMinutes (minutesToTime n) = Some n"
proof -
  let ?h = "padStart2 (digits (nat (n div 60)))"
  let ?m = "padStart2 (digits (nat (n mod 60)))"
  have h: "CHR '':'' \<notin> set ?h"
  proof
    assume "CHR '':'' \<in> set ?h"
    from padStart2_digits_plain [OF this] show False by simp
  qed
  have m: "CHR '':'' \<notin> set ?m"
  proof
    assume "CHR '':'' \<in> set ?m"
    from padStart2_digits_plain [OF this] show False by simp
  qed
  have "split_colon (?h @ CHR '':'' # ?m) = [?h, ?m]"
    using split_colon_append [OF h] split_colon_plain [OF m] by simp
  moreover have "Number_js ?h = Some (n div 60)" "Number_js ?m = Some (n mod 60)"
    using assms by (simp_all add: Number_js_padStart2_digits)
  ultimately show ?thesis
    using assms by (simp add: minutesToTime_nonneg timeToMinutes_def)
qed


lemma length_digits_small: "k < 100 \<Longrightarrow> length (padStart2 (digits k)) = 2"
proof -
  assume k: "k < 100"
  show ?thesis
  proof (cases "k < 10")
    case True
    then show ?thesis
      by (subst digits.simps) (simp add: padStart2_def)
  next
    case False
    moreover from k have "k div 10 < 10" by simp
    then have "digits (k div 10) = [digit_char (k div 10)]"
      by (subst digits.simps) simp
    ultimately show ?thesis
      by (subst digits.simps) (simp add: padStart2_def)
  qed
qed

section \<open>End-time derivation\<close>

lemma deriveEndTime_explicit:
  "apt_end_time apt = Some e \<Longrightarrow> e \<noteq> [] \<Longrightarrow> deriveEndTime apt = Inr e"
  by (simp add: deriveEndTime_def truthy_string_def string_or_def)

lemma deriveEndTime_duration:
  assumes "\<not> truthy_string (apt_end_time apt)"
    and "apt_services apt = Some sv" and "duration_minutes sv = Some d" and "d \<noteq> 0"
    and "timeToMinutes (apt_start_time apt) = Some s"
  shows "deriveEndTime apt = Inr (minutesToTime (s + d))"
  using assms by (simp add: deriveEndTime_def truthy_duration_def)

lemma deriveEndTime_default:
  assumes "\<not> truthy_string (apt_end_time apt)"
    and "apt_services apt = Some sv"
    and "duration_minutes sv = None \<or> duration_minutes sv = Some 0"
    and "timeToMinutes (apt_start_time apt) = Some s"
  shows "deriveEndTime apt = Inr (minutesToTime (s + 30))"
  using assms by (auto simp add: deriveEndTime_def truthy_duration_def)

lemma normalizeAppointment_end_time:
  assumes "apt_contacts apt = Some c" and "apt_services apt = Some sv"
    and "deriveEndTime apt = Inr e"
  shows "\<exists>a. normalizeAppointment apt = Inr a \<and> end_time a = e \<and> start_time a = apt_start_time apt"
  using assms by (simp add: normalizeAppointment_def)


section \<open>Properties of the column assignment\<close>

lemma conflicts_consistent:
  "consistent p \<Longrightarrow> conflicts s e p = (startMinutes p < e \<and> s < endMinutes p)"
  by (auto simp: consistent_def conflicts_def)

lemma findColumn_ge: "col \<le> findColumn ps s e col"
proof (induction ps s e col rule: findColumn.induct)
  case (1 ps s e col)
  show ?case
  proof (cases "list_ex (\<lambda>p. column p = col \<and> conflicts s e p) ps")
    case True
    with "1.IH" have "Suc col \<le> findColumn ps s e (Suc col)" by simp
    with True show ?thesis by (subst findColumn.simps) simp
  next
    case False
    then show ?thesis by (subst findColumn.simps) simp
  qed
qed

lemma findColumn_free:
  "p \<in> set ps \<Longrightarrow> column p = findColumn ps s e col \<Longrightarrow> \<not> conflicts s e p"
proof (induction ps s e col rule: findColumn.induct)
  case (1 ps s e col)
  show ?case
  proof (cases "list_ex (\<lambda>p. column p = col \<and> conflicts s e p) ps")
    case True
    then have "findColumn ps s e col = findColumn ps s e (Suc col)"
      by (subst findColumn.simps) simp
    with True "1.IH" "1.prems" show ?thesis by simp
  next
    case False
    then have "findColumn ps s e col = col"
      by (subst findColumn.simps) simp
    with False "1.prems" show ?thesis by (auto simp: list_ex_iff)
  qed
qed

lemma findColumn_tight:
  "col \<le> c \<Longrightarrow> c < findColumn ps s e col \<Longrightarrow> \<exists>p\<in>set ps. column p = c \<and> conflicts s e p"
proof (induction ps s e col rule: findColumn.induct)
  case (1 ps s e col)
  show ?case
  proof (cases "list_ex (\<lambda>p. column p = col \<and> conflicts s e p) ps")
    case True
    then have eq: "findColumn ps s e col = findColumn ps s e (Suc col)"
      by (subst findColumn.simps) simp
    show ?thesis
    proof (cases "c = col")
      case True
      with \<open>list_ex _ ps\<close> show ?thesis by (auto simp: list_ex_iff)
    next
      case False
      with "1.prems" eq have "Suc col \<le> c" "c < findColumn ps s e (Suc col)" by simp_all
      with True "1.IH" show ?thesis by simp
    qed
  next
    case False
    then have "findColumn ps s e col = col"
      by (subst findColumn.simps) simp
    with "1.prems" show ?thesis by simp
  qed
qed


lemma placeAppointments_invariant:
  assumes "placeAppointments acc xs = Some ps"
    and "P acc"
    and step: "\<And>acc (a :: appointment) s e. P acc \<Longrightarrow> timeToMinutes (start_time a) = Some s \<Longrightarrow>
       timeToMinutes (end_time a) = Some e \<Longrightarrow>
       P (acc @ [\<lparr>start_time = start_time a, end_time = end_time a, client = client a,
                  service = service a, status = status a,
                  column = findColumn acc s e 0, startMinutes = s, endMinutes = e,
                  duration = e - s\<rparr>])"
  shows "P ps"
  using assms(1,2)
proof (induction xs arbitrary: acc)
  case Nil
  then show ?case by simp
next
  case (Cons a xs)
  from Cons.prems(1) obtain s e where se: "timeToMinutes (start_time a) = Some s"
      "timeToMinutes (end_time a) = Some e"
    by (auto split: option.splits)
  let ?new = "\<lparr>start_time = start_time a, end_time = end_time a, client = client a,
                  service = service a, status = status a,
                  column = findColumn acc s e 0, startMinutes = s, endMinutes = e,
                  duration = e - s\<rparr>"
  from Cons.prems(1) se have "placeAppointments (acc @ [?new]) xs = Some ps" by simp
  moreover have "P (acc @ [?new])" using Cons.prems(2) se by (rule step)
  ultimately show ?case by (rule Cons.IH)
qed

lemma consistent_step:
  assumes "\<forall>p\<in>set acc. consistent p"
    and "timeToMinutes (start_time a) = Some s" and "timeToMinutes (end_time a) = Some e"
  shows "\<forall>p\<in>set (acc @ [\<lparr>start_time = start_time a, end_time = end_time a, client = client a,
                  service = service a, status = status a,
                  column = findColumn acc s e 0, startMinutes = s, endMinutes = e,
                  duration = e - s\<rparr>]). consistent p"
  using assms by (simp add: consistent_def)

lemma columnsSound_step:
  assumes cons: "\<forall>p\<in>set acc. consistent p" and snd: "columnsSound acc"
    and new: "column new = findColumn acc (startMinutes new) (endMinutes new) 0"
  shows "columnsSound (acc @ [new])"
  unfolding columnsSound_def
proof (intro allI impI)
  fix j i
  assume j: "j < length (acc @ [new])" and i: "i < j"
    and eq: "column ((acc @ [new]) ! i) = column ((acc @ [new]) ! j)"
  show "\<not> overlap ((acc @ [new]) ! i) ((acc @ [new]) ! j)"
  proof (cases "j < length acc")
    case True
    with i snd eq show ?thesis
      by (simp add: columnsSound_def nth_append)
  next
    case False
    with j have jl: "j = length acc" by simp
    with i have il: "i < length acc" by simp
    then have mem: "acc ! i \<in> set acc" by simp
    from eq jl il new have "column (acc ! i) = findColumn acc (startMinutes new) (endMinutes new) 0"
      by (simp add: nth_append)
    with mem have "\<not> conflicts (startMinutes new) (endMinutes new) (acc ! i)"
      by (rule findColumn_free)
    moreover from cons mem have "consistent (acc ! i)" by blast
    ultimately show ?thesis
      using jl il by (simp add: conflicts_consistent overlap_def nth_append)
  qed
qed

lemma columnsTight_step:
  assumes cons: "\<forall>p\<in>set acc. consistent p" and tight: "columnsTight acc"
    and new: "column new = findColumn acc (startMinutes new) (endMinutes new) 0"
  shows "columnsTight (acc @ [new])"
  unfolding columnsTight_def
proof (intro allI impI)
  fix j c
  assume j: "j < length (acc @ [new])" and c: "c < column ((acc @ [new]) ! j)"
  show "\<exists>i<j. column ((acc @ [new]) ! i) = c \<and> overlap ((acc @ [new]) ! i) ((acc @ [new]) ! j)"
  proof (cases "j < length acc")
    case True
    with c have "c < column (acc ! j)" by (simp add: nth_append)
    with True tight obtain i where "i < j" "column (acc ! i) = c" "overlap (acc ! i) (acc ! j)"
      unfolding columnsTight_def by blast
    with True show ?thesis
      by (auto simp: nth_append intro!: exI [of _ i])
  next
    case False
    with j have jl: "j = length acc" by simp
    with c new have "c < findColumn acc (startMinutes new) (endMinutes new) 0" by simp
    then obtain p where p: "p \<in> set acc" "column p = c"
        "conflicts (startMinutes new) (endMinutes new) p"
      using findColumn_tight [of 0 c acc] by auto
    from p(1) obtain i where i: "i < length acc" "acc ! i = p"
      by (auto simp: in_set_conv_nth)
    from cons p(1) have "consistent p" by blast
    with p(3) have "overlap p new"
      by (simp add: conflicts_consistent overlap_def)
    with i p(2) jl show ?thesis
      by (auto simp: nth_append intro!: exI [of _ i])
  qed
qed

lemma placeAppointments_properties:
  assumes "placeAppointments [] xs = Some ps"
  shows "(\<forall>p\<in>set ps. consistent p) \<and> columnsSound ps \<and> columnsTight ps"
  using assms
proof (rule placeAppointments_invariant)
  show "(\<forall>p\<in>set []. consistent p) \<and> columnsSound [] \<and> columnsTight []"
    by (simp add: columnsSound_def columnsTight_def)
next
  fix acc :: "placed list" and a :: appointment and s e
  assume inv: "(\<forall>p\<in>set acc. consistent p) \<and> columnsSound acc \<and> columnsTight acc"
    and se: "timeToMinutes (start_time a) = Some s" "timeToMinutes (end_time a) = Some e"
  let ?new = "\<lparr>start_time = start_time a, end_time = end_time a, client = client a,
                  service = service a, status = status a,
                  column = findColumn acc s e 0, startMinutes = s, endMinutes = e,
                  duration = e - s\<rparr>"
  have new: "column ?new = findColumn acc (startMinutes ?new) (endMinutes ?new) 0" by simp
  from inv se have "\<forall>p\<in>set (acc @ [?new]). consistent p"
    by (intro consistent_step) simp_all
  moreover from inv new have "columnsSound (acc @ [?new])"
    by (intro columnsSound_step) simp_all
  moreover from inv new have "columnsTight (acc @ [?new])"
    by (intro columnsTight_step) simp_all
  ultimately show "(\<forall>p\<in>set (acc @ [?new]). consistent p) \<and> columnsSound (acc @ [?new])
      \<and> columnsTight (acc @ [?new])"
    by simp
qed

lemma placeAppointments_shape:
  "placeAppointments acc xs = Some ps \<Longrightarrow>
     map appointment.truncate ps = map appointment.truncate acc @ xs
     \<and> map startMinutes ps = map startMinutes acc @ map startKey xs"
proof (induction xs arbitrary: acc)
  case Nil
  then show ?case by simp
next
  case (Cons a xs)
  from Cons.prems obtain s e where se: "timeToMinutes (start_time a) = Some s"
      "timeToMinutes (end_time a) = Some e"
    by (auto split: option.splits)
  let ?new = "\<lparr>start_time = start_time a, end_time = end_time a, client = client a,
                  service = service a, status = status a,
                  column = findColumn acc s e 0, startMinutes = s, endMinutes = e,
                  duration = e - s\<rparr>"
  from Cons.prems se have "placeAppointments (acc @ [?new]) xs = Some ps" by simp
  from Cons.IH [OF this] se show ?case
    by (simp add: appointment.truncate_def startKey_def)
qed

lemma placeAppointments_total:
  "\<forall>a\<in>set xs. parseTimes a \<noteq> None \<Longrightarrow> \<exists>ps. placeAppointments acc xs = Some ps"
proof (induction xs arbitrary: acc)
  case Nil
  then show ?case by simp
next
  case (Cons a xs)
  from Cons.prems obtain s e where "timeToMinutes (start_time a) = Some s"
      "timeToMinutes (end_time a) = Some e"
    by (auto simp: parseTimes_def split: option.splits)
  moreover from Cons.prems have "\<forall>a\<in>set xs. parseTimes a \<noteq> None" by simp
  ultimately show ?case
    using Cons.IH by simp
qed


lemma fold_max_Max: "fold max xs (a::nat) = Max (set (a # xs))"
  by (simp only: Max.set_eq_fold)

lemma fold_max_ge: "x \<in> set xs \<Longrightarrow> x \<le> fold max xs (a::nat)"
  by (simp add: fold_max_Max)

lemma fold_max_le: "\<forall>x\<in>set xs. x \<le> k \<Longrightarrow> a \<le> k \<Longrightarrow> fold max xs (a::nat) \<le> k"
  by (simp add: fold_max_Max)

lemma fold_max_mem: "xs \<noteq> [] \<Longrightarrow> fold max xs (0::nat) \<in> set xs"
proof -
  assume ne: "xs \<noteq> []"
  have "Max (set (0 # xs)) \<in> set (0 # xs)"
    by (rule Max_in) simp_all
  moreover have "Max (set (0 # xs)) = 0 \<Longrightarrow> Max (set (0 # xs)) \<in> set xs"
  proof -
    assume z: "Max (set (0 # xs)) = 0"
    from ne obtain x where x: "x \<in> set xs" by (cases xs) auto
    then have "x \<le> Max (set (0 # xs))" by simp
    with z x show ?thesis by simp
  qed
  ultimately show ?thesis
    by (auto simp: fold_max_Max)
qed

lemma column_less_maxColumnsOf: "p \<in> set ps \<Longrightarrow> column p < maxColumnsOf ps"
  using fold_max_ge [of "column p" "map column ps" 0] by (simp add: maxColumnsOf_def)

lemma columnsSound_butlast:
  assumes "columnsSound (ps @ [x])"
  shows "columnsSound ps" and "\<forall>q\<in>set ps. column q = column x \<longrightarrow> \<not> overlap q x"
proof -
  show "columnsSound ps"
    unfolding columnsSound_def
  proof (intro allI impI)
    fix j i assume j: "j < length ps" and i: "i < j" and eq: "column (ps ! i) = column (ps ! j)"
    from assms have all: "\<forall>j<Suc (length ps). \<forall>i<j.
        column ((ps @ [x]) ! i) = column ((ps @ [x]) ! j)
        \<longrightarrow> \<not> overlap ((ps @ [x]) ! i) ((ps @ [x]) ! j)"
      by (simp add: columnsSound_def)
    from j have "j < Suc (length ps)" by simp
    with all i have "column ((ps @ [x]) ! i) = column ((ps @ [x]) ! j)
        \<longrightarrow> \<not> overlap ((ps @ [x]) ! i) ((ps @ [x]) ! j)"
      by blast
    with j i eq show "\<not> overlap (ps ! i) (ps ! j)"
      by (simp add: nth_append)
  qed
  show "\<forall>q\<in>set ps. column q = column x \<longrightarrow> \<not> overlap q x"
  proof (intro ballI impI)
    fix q assume "q \<in> set ps" and eq: "column q = column x"
    then obtain i where i: "i < length ps" "ps ! i = q"
      by (auto simp: in_set_conv_nth)
    from assms have all: "\<forall>j<Suc (length ps). \<forall>i<j.
        column ((ps @ [x]) ! i) = column ((ps @ [x]) ! j)
        \<longrightarrow> \<not> overlap ((ps @ [x]) ! i) ((ps @ [x]) ! j)"
      by (simp add: columnsSound_def)
    have "length ps < Suc (length ps)" by simp
    with all i(1) have "column ((ps @ [x]) ! i) = column ((ps @ [x]) ! length ps)
        \<longrightarrow> \<not> overlap ((ps @ [x]) ! i) ((ps @ [x]) ! length ps)"
      by blast
    with i eq show "\<not> overlap q x"
      by (simp add: nth_append)
  qed
qed

lemma distinct_columns_active:
  "columnsSound ps \<Longrightarrow> distinct (map column (filter (activeAt t) ps))"
proof (induction ps rule: rev_induct)
  case Nil
  then show ?case by simp
next
  case (snoc x ps)
  from snoc.prems have snd: "columnsSound ps"
    and sep: "\<forall>q\<in>set ps. column q = column x \<longrightarrow> \<not> overlap q x"
    by (rule columnsSound_butlast)+
  from snd have IH: "distinct (map column (filter (activeAt t) ps))"
    by (rule snoc.IH)
  show ?case
  proof (cases "activeAt t x")
    case False
    with IH show ?thesis by simp
  next
    case True
    have "column x \<notin> column ` set (filter (activeAt t) ps)"
    proof
      assume "column x \<in> column ` set (filter (activeAt t) ps)"
      then obtain q where q: "q \<in> set ps" "activeAt t q" "column q = column x"
        by auto
      from q(2) True have "overlap q x"
        by (simp add: activeAt_def overlap_def)
      with sep q show False by blast
    qed
    with IH True show ?thesis by simp
  qed
qed

lemma activeCount_le_maxColumnsOf:
  assumes "columnsSound ps"
  shows "activeCount t ps \<le> maxColumnsOf ps"
proof -
  let ?cols = "map column (filter (activeAt t) ps)"
  have "distinct ?cols" using assms by (rule distinct_columns_active)
  then have "card (set ?cols) = length ?cols"
    by (rule distinct_card)
  then have eq: "activeCount t ps = card (set ?cols)"
    by (simp add: activeCount_def)
  have "\<forall>c\<in>set ?cols. c < maxColumnsOf ps"
    using column_less_maxColumnsOf [of _ ps] by auto
  then have "set ?cols \<subseteq> {..<maxColumnsOf ps}"
    by blast
  then have "card (set ?cols) \<le> card {..<maxColumnsOf ps}"
    by (intro card_mono) simp_all
  with eq show ?thesis by simp
qed

lemma activeCount_ge_column:
  assumes tight: "columnsTight ps" and sorted: "sorted (map startMinutes ps)"
    and j: "j < length ps" and proper: "startMinutes (ps ! j) < endMinutes (ps ! j)"
  shows "Suc (column (ps ! j)) \<le> activeCount (startMinutes (ps ! j)) ps"
proof -
  let ?t = "startMinutes (ps ! j)"
  let ?act = "filter (activeAt ?t) ps"
  have "{..column (ps ! j)} \<subseteq> column ` set ?act"
  proof
    fix c assume "c \<in> {..column (ps ! j)}"
    then have "c = column (ps ! j) \<or> c < column (ps ! j)" by auto
    then show "c \<in> column ` set ?act"
    proof
      assume "c = column (ps ! j)"
      moreover have "ps ! j \<in> set ?act"
        using j proper by (simp add: activeAt_def)
      ultimately show ?thesis by blast
    next
      assume "c < column (ps ! j)"
      with tight j obtain i where i: "i < j" "column (ps ! i) = c" "overlap (ps ! i) (ps ! j)"
        unfolding columnsTight_def by blast
      from sorted i(1) j have "startMinutes (ps ! i) \<le> startMinutes (ps ! j)"
        using sorted_nth_mono [of "map startMinutes ps" i j] by simp
      with i(3) have "activeAt ?t (ps ! i)"
        by (simp add: activeAt_def overlap_def)
      moreover from i(1) j have "ps ! i \<in> set ps" by simp
      ultimately have "ps ! i \<in> set ?act" by simp
      with i(2) show ?thesis by blast
    qed
  qed
  then have "card {..column (ps ! j)} \<le> card (column ` set ?act)"
    by (intro card_mono) simp_all
  also have "\<dots> \<le> card (set ?act)"
    by (intro card_image_le) simp
  also have "\<dots> \<le> length ?act"
    by (rule card_length)
  finally show ?thesis
    by (simp add: activeCount_def)
qed

lemma sortAppointments_Some:
  "sortAppointments apts = Some xs \<Longrightarrow> xs = sort_key startKey apts"
  by (simp add: sortAppointments_def split: if_splits)

lemma assignColumns_properties:
  assumes "assignColumns apts = Some ps"
  shows "(\<forall>p\<in>set ps. consistent p)" and "columnsSound ps" and "columnsTight ps"
    and "map appointment.truncate ps = sort_key startKey apts"
    and "sorted (map startMinutes ps)"
proof -
  from assms have pl: "placeAppointments [] (sort_key startKey apts) = Some ps"
    by (auto simp: assignColumns_def dest: sortAppointments_Some split: option.splits)
  from placeAppointments_properties [OF pl]
  show "(\<forall>p\<in>set ps. consistent p)" and "columnsSound ps" and "columnsTight ps"
    by simp_all
  from placeAppointments_shape [OF pl]
  show "map appointment.truncate ps = sort_key startKey apts"
    and "sorted (map startMinutes ps)"
    by (simp_all add: sorted_sort_key)
qed

lemma assignColumns_total:
  assumes "\<forall>a\<in>set apts. parseTimes a \<noteq> None"
  shows "\<exists>ps. assignColumns apts = Some ps"
proof -
  from assms have "list_all (\<lambda>a. timeToMinutes (start_time a) \<noteq> None) apts"
    by (auto simp: list_all_iff parseTimes_def split: option.splits)
  then have "sortAppointments apts = Some (sort_key startKey apts)"
    by (simp add: sortAppointments_def)
  moreover from assms have "\<forall>a\<in>set (sort_key startKey apts). parseTimes a \<noteq> None"
    by simp
  then have "\<exists>ps. placeAppointments [] (sort_key startKey apts) = Some ps"
    by (rule placeAppointments_total)
  ultimately show ?thesis
    by (simp add: assignColumns_def)
qed

lemma maxColumns_attained:
  assumes tight: "columnsTight ps" and sorted: "sorted (map startMinutes ps)"
    and ne: "ps \<noteq> []" and proper: "\<forall>p\<in>set ps. startMinutes p < endMinutes p"
  shows "\<exists>p\<in>set ps. maxColumnsOf ps \<le> activeCount (startMinutes p) ps"
proof -
  from ne have "fold max (map column ps) 0 \<in> set (map column ps)"
    by (intro fold_max_mem) simp
  then obtain j where j: "j < length ps" "column (ps ! j) = fold max (map column ps) 0"
    by (auto simp: in_set_conv_nth)
  from j(1) proper have "startMinutes (ps ! j) < endMinutes (ps ! j)" by simp
  with tight sorted j(1) have "Suc (column (ps ! j)) \<le> activeCount (startMinutes (ps ! j)) ps"
    by (rule activeCount_ge_column)
  with j show ?thesis
    by (auto simp: maxColumnsOf_def intro!: bexI [of _ "ps ! j"])
qed

lemma maxActive_eq:
  assumes "columnsSound ps" and "columnsTight ps" and "sorted (map startMinutes ps)"
    and "ps \<noteq> []" and "\<forall>p\<in>set ps. startMinutes p < endMinutes p"
  shows "maxColumnsOf ps = maxActive ps"
proof (rule antisym)
  from maxColumns_attained [OF assms(2-5)] obtain p
    where p: "p \<in> set ps" "maxColumnsOf ps \<le> activeCount (startMinutes p) ps" by blast
  from p(1) have "activeCount (startMinutes p) ps \<le> maxActive ps"
    unfolding maxActive_def by (intro fold_max_ge) simp
  with p(2) show "maxColumnsOf ps \<le> maxActive ps" by simp
next
  show "maxActive ps \<le> maxColumnsOf ps"
    unfolding maxActive_def
    by (intro fold_max_le) (auto intro: activeCount_le_maxColumnsOf [OF assms(1)])
qed

section \<open>Formatting minutes\<close>

text \<open>
  Claim C7, as the code has it. For every non-negative number of minutes,
  \<open>minutesToTime\<close> writes the floor quotient by 60 and the remainder modulo 60, each
  padded with zeros to two digits, with a colon between them. The hours are not reduced
  modulo 24: reading the string back with \<open>timeToMinutes\<close> gives the same number of
  minutes, also from 1440 on. Below 6000 minutes the string has the five characters of
  \<^verbatim>\<open>HH:MM\<close>.
\<close>

theorem minutesToTime_format:
  "0 \<le> n \<Longrightarrow>
     minutesToTime n = padStart2 (digits (nat (n div 60))) @ '':'' @ padStart2 (digits (nat (n mod 60)))
     \<and> timeToMinutes (minutesToTime n) = Some n
     \<and> (n < 6000 \<longrightarrow> length (minutesToTime n) = 5)"
proof -
  assume n: "0 \<le> n"
  have "length (minutesToTime n) = 5" if "n < 6000"
  proof -
    from n that have "nat (n div 60) < 100" by simp
    moreover have "nat (n mod 60) < 100" by simp
    ultimately show ?thesis
      using n by (simp add: minutesToTime_nonneg length_digits_small)
  qed
  then show ?thesis
    using minutesToTime_nonneg [OF n] timeToMinutes_minutesToTime [OF n] by (intro conjI impI)
qed

theorem minutesToTime_format_witness:
  "(0::int) \<le> 1500 \<and> (1500::int) < 6000
     \<and> timeToMinutes (minutesToTime 1500) = Some 1500 \<and> length (minutesToTime 1500) = 5"
  using minutesToTime_format [of 1500, THEN conjunct2] by simp

text \<open>
  Claim C7 as the specification words it, with hours wrapping modulo 24, fails at 1500
  minutes: the result is \<^verbatim>\<open>25:00\<close>, not \<^verbatim>\<open>01:00\<close>.
\<close>

theorem minutesToTime_wrap_counterexample:
  "minutesToTime 1500 = ''25:00'' \<and> minutesToTime 1500 \<noteq> ''01:00''"
  by (simp add: minutesToTime_def js_rem_def toString_def padStart2_def digits.simps digit_char_def)



section \<open>Columns of a member\<close>

lemma activeCount_le_maxActive: "activeCount t ps \<le> maxActive ps"
proof (cases "filter (activeAt t) ps = []")
  case True
  then show ?thesis by (simp add: activeCount_def)
next
  case False
  let ?act = "filter (activeAt t) ps"
  let ?S = "startMinutes ` set ?act"
  from False have "set ?act \<noteq> {}" by (simp only: set_empty not_False_eq_True)
  then have "?S \<noteq> {}" by blast
  then have "Max ?S \<in> ?S" by (intro Max_in) simp_all
  then obtain a where a: "a \<in> set ?act" "startMinutes a = Max ?S" by auto
  have "\<forall>q\<in>set ps. activeAt t q \<longrightarrow> activeAt (startMinutes a) q"
  proof (intro ballI impI)
    fix q assume q: "q \<in> set ps" "activeAt t q"
    then have "startMinutes q \<le> Max ?S" by (intro Max_ge) simp_all
    moreover from a(1) have "startMinutes a \<le> t" by (simp add: activeAt_def)
    ultimately show "activeAt (startMinutes a) q"
      using q(2) a(2) by (simp add: activeAt_def)
  qed
  then have "?act = filter (activeAt t) (filter (activeAt (startMinutes a)) ps)"
    by (auto intro: filter_cong)
  then have "length ?act \<le> length (filter (activeAt (startMinutes a)) ps)"
    by (metis length_filter_le)
  moreover from a(1) have "activeCount (startMinutes a) ps \<le> maxActive ps"
    unfolding maxActive_def by (intro fold_max_ge) simp
  ultimately show ?thesis by (simp add: activeCount_def)
qed

lemma processMember_Some:
  "processMember m = Some pm \<Longrightarrow>
     assignColumns (appointments m) = Some (pm_appointments pm)
     \<and> maxColumns pm = maxColumnsOf (pm_appointments pm)"
  by (auto simp: processMember_def split: option.splits)

lemma placed_proper:
  assumes "assignColumns apts = Some ps"
    and "\<forall>a\<in>set apts. \<exists>s e. parseTimes a = Some (s, e) \<and> s < e"
  shows "\<forall>p\<in>set ps. startMinutes p < endMinutes p"
proof
  fix p assume p: "p \<in> set ps"
  from assignColumns_properties(4) [OF assms(1)]
  have "set (map appointment.truncate ps) = set apts" by simp
  with p have "appointment.truncate p \<in> set apts" by auto
  with assms(2) obtain s e where se: "parseTimes (appointment.truncate p) = Some (s, e)" "s < e"
    by blast
  from assignColumns_properties(1) [OF assms(1)] p have "consistent p" by blast
  with se show "startMinutes p < endMinutes p"
    by (auto simp: parseTimes_def consistent_def appointment.truncate_def split: option.splits)
qed

lemma sample_parse:
  "parseTimes (sampleAppointment ''09:00'' ''10:00'') = Some (540, 600)"
  "parseTimes (sampleAppointment ''09:30'' ''10:30'') = Some (570, 630)"
  "parseTimes (sampleAppointment ''10:00'' ''11:00'') = Some (600, 660)"
  by code_simp+

lemma overlap_commute: "overlap p q = overlap q p"
  by (auto simp: overlap_def)

lemma columnsSound_nth:
  assumes "columnsSound ps" and "i < length ps" and "j < length ps" and "i \<noteq> j"
    and "column (ps ! i) = column (ps ! j)"
  shows "\<not> overlap (ps ! i) (ps ! j)"
proof (cases "i < j")
  case True
  with assms show ?thesis by (simp add: columnsSound_def)
next
  case False
  with assms(4) have "j < i" by simp
  with assms have "\<not> overlap (ps ! j) (ps ! i)" by (simp add: columnsSound_def)
  then show ?thesis by (simp add: overlap_commute)
qed

text \<open>
  Claim C2. In the result of the pass for a member, two different entries with the same
  column do not overlap, where \<open>[s1, e1)\<close> and \<open>[s2, e2)\<close> overlap when \<open>s1 < e2\<close> and
  \<open>s2 < e1\<close>; the minutes compared are those of the entry's own time strings, and the
  entries are the member's appointments in stable order of start. The pass returns whenever
  the times of all appointments are read. An appointment that
  ends when another starts shares its column (09:00 to 09:30 and 09:30 to 10:00 are both in
  column 0), and 09:00 to 09:30 and 09:15 to 09:45 are in columns 0 and 1.
\<close>

theorem columns_sound:
  "(processMember m = Some pm \<longrightarrow>
      (\<forall>i j. i < length (pm_appointments pm) \<and> j < length (pm_appointments pm) \<and> i \<noteq> j
          \<and> column (pm_appointments pm ! i) = column (pm_appointments pm ! j)
        \<longrightarrow> \<not> (startMinutes (pm_appointments pm ! i) < endMinutes (pm_appointments pm ! j)
              \<and> startMinutes (pm_appointments pm ! j) < endMinutes (pm_appointments pm ! i)))
      \<and> (\<forall>p\<in>set (pm_appointments pm).
            timeToMinutes (start_time p) = Some (startMinutes p)
            \<and> timeToMinutes (end_time p) = Some (endMinutes p))
      \<and> map appointment.truncate (pm_appointments pm) = sort_key startKey (appointments m))
   \<and> ((\<forall>a\<in>set (appointments m). parseTimes a \<noteq> None) \<longrightarrow>
        (\<exists>pm'. processMember m = Some pm'))
   \<and> map_option (map column \<circ> pm_appointments) (processMember (sampleMember
        [sampleAppointment ''09:00'' ''09:30'', sampleAppointment ''09:30'' ''10:00''])) = Some [0, 0]
   \<and> map_option (map column \<circ> pm_appointments) (processMember (sampleMember
        [sampleAppointment ''09:00'' ''09:30'', sampleAppointment ''09:15'' ''09:45''])) = Some [0, 1]"
proof (intro conjI impI)
  assume pm: "processMember m = Some pm"
  then have ps: "assignColumns (appointments m) = Some (pm_appointments pm)"
    by (simp add: processMember_Some)
  note props = assignColumns_properties [OF ps]
  show "\<forall>i j. i < length (pm_appointments pm) \<and> j < length (pm_appointments pm) \<and> i \<noteq> j
          \<and> column (pm_appointments pm ! i) = column (pm_appointments pm ! j)
        \<longrightarrow> \<not> (startMinutes (pm_appointments pm ! i) < endMinutes (pm_appointments pm ! j)
              \<and> startMinutes (pm_appointments pm ! j) < endMinutes (pm_appointments pm ! i))"
    using columnsSound_nth [OF props(2)] unfolding overlap_def by blast
  show "\<forall>p\<in>set (pm_appointments pm).
            timeToMinutes (start_time p) = Some (startMinutes p)
            \<and> timeToMinutes (end_time p) = Some (endMinutes p)"
    using props(1) by (simp add: consistent_def)
  show "map appointment.truncate (pm_appointments pm) = sort_key startKey (appointments m)"
    by (rule props(4))
next
  assume "\<forall>a\<in>set (appointments m). parseTimes a \<noteq> None"
  then obtain ps where "assignColumns (appointments m) = Some ps"
    using assignColumns_total by blast
  then show "\<exists>pm'. processMember m = Some pm'"
    by (simp add: processMember_def)
next
  show "map_option (map column \<circ> pm_appointments) (processMember (sampleMember
        [sampleAppointment ''09:00'' ''09:30'', sampleAppointment ''09:30'' ''10:00''])) = Some [0, 0]"
    by code_simp
next
  show "map_option (map column \<circ> pm_appointments) (processMember (sampleMember
        [sampleAppointment ''09:00'' ''09:30'', sampleAppointment ''09:15'' ''09:45''])) = Some [0, 1]"
    by code_simp
qed

theorem columns_sound_witness:
  "\<exists>pm. processMember (sampleMember
        [sampleAppointment ''09:00'' ''09:30'', sampleAppointment ''09:30'' ''10:00'']) = Some pm
     \<and> length (pm_appointments pm) = 2
     \<and> column (pm_appointments pm ! 0) = column (pm_appointments pm ! 1)
     \<and> \<not> (startMinutes (pm_appointments pm ! 0) < endMinutes (pm_appointments pm ! 1)
          \<and> startMinutes (pm_appointments pm ! 1) < endMinutes (pm_appointments pm ! 0))
     \<and> (\<forall>p\<in>set (pm_appointments pm). timeToMinutes (start_time p) = Some (startMinutes p))"
proof -
  let ?m = "sampleMember
        [sampleAppointment ''09:00'' ''09:30'', sampleAppointment ''09:30'' ''10:00'']"
  have "\<forall>a\<in>set (appointments ?m). parseTimes a \<noteq> None"
    by code_simp
  then obtain ps where ps: "assignColumns (appointments ?m) = Some ps"
    using assignColumns_total by blast
  let ?pm = "\<lparr>pm_id = member_id ?m, pm_name = member_name ?m, pm_appointments = ps,
                maxColumns = maxColumnsOf ps\<rparr>"
  have pm: "processMember ?m = Some ?pm"
    using ps by (simp add: processMember_def)
  have cols: "map_option (map column \<circ> pm_appointments) (processMember ?m) = Some [0, 0]"
    by code_simp
  with pm have mc: "map column ps = [0, 0]" by simp
  then obtain a b where ab: "ps = [a, b]" "column a = 0" "column b = 0"
    by (auto simp: map_eq_Cons_conv)
  note sound = columns_sound [of ?m ?pm, THEN conjunct1, rule_format, OF pm]
  from sound have "\<forall>i j. i < length ps \<and> j < length ps \<and> i \<noteq> j
          \<and> column (ps ! i) = column (ps ! j)
        \<longrightarrow> \<not> (startMinutes (ps ! i) < endMinutes (ps ! j)
              \<and> startMinutes (ps ! j) < endMinutes (ps ! i))"
    by simp
  then have "(0::nat) < length ps \<and> 1 < length ps \<and> (0::nat) \<noteq> 1
          \<and> column (ps ! 0) = column (ps ! 1)
        \<longrightarrow> \<not> (startMinutes (ps ! 0) < endMinutes (ps ! 1)
              \<and> startMinutes (ps ! 1) < endMinutes (ps ! 0))"
    by blast
  with ab have "\<not> (startMinutes (ps ! 0) < endMinutes (ps ! 1)
          \<and> startMinutes (ps ! 1) < endMinutes (ps ! 0))"
    by simp
  moreover from sound have "\<forall>p\<in>set ps. timeToMinutes (start_time p) = Some (startMinutes p)"
    by simp
  ultimately show ?thesis
    using pm ab by (intro exI [of _ ?pm]) simp
qed

lemma activeAt_running:
  "consistent p \<Longrightarrow> activeAt t p = running t (appointment.truncate p)"
  by (simp add: consistent_def activeAt_def running_def parseTimes_def appointment.truncate_def)

lemma activeCount_runningCount:
  assumes "assignColumns apts = Some ps"
  shows "activeCount t ps = runningCount t apts"
proof -
  note props = assignColumns_properties [OF assms]
  have "filter (activeAt t) ps = filter (running t \<circ> appointment.truncate) ps"
    using props(1) by (intro filter_cong) (simp_all add: activeAt_running)
  then have "activeCount t ps = length (filter (running t) (map appointment.truncate ps))"
    by (simp add: activeCount_def filter_map)
  also have "\<dots> = length (filter (running t) (sort_key startKey apts))"
    by (simp only: props(4))
  also have "\<dots> = length (filter (running t) apts)"
    by (simp add: filter_sort)
  finally show ?thesis by (simp add: runningCount_def)
qed

lemma placed_times:
  assumes "assignColumns apts = Some ps"
  shows "\<forall>p\<in>set ps. parseTimes (appointment.truncate p) = Some (startMinutes p, endMinutes p)"
  using assignColumns_properties(1) [OF assms]
  by (simp add: consistent_def parseTimes_def appointment.truncate_def)

lemma processMember_empty:
  "appointments m = [] \<Longrightarrow>
     processMember m = Some \<lparr>pm_id = member_id m, pm_name = member_name m,
                              pm_appointments = [], maxColumns = 1\<rparr>"
  by (simp add: processMember_def assignColumns_def sortAppointments_def maxColumnsOf_def)

text \<open>
  Claim C1, as the code has it. A member with no appointment gets no entry and
  \<open>maxColumns\<close> 1. For a member with at least one appointment, each ending after it
  starts, the pass returns; its entries are the member's appointments in stable order of
  start, each with the minutes of its own strings; \<open>maxColumns\<close> is the largest column
  plus one, and it is the largest number of the member's appointments running at one
  instant: no instant has more, and some instant has that many.
\<close>

theorem columns_minimal:
  "(appointments m = [] \<longrightarrow>
      processMember m = Some \<lparr>pm_id = member_id m, pm_name = member_name m,
                               pm_appointments = [], maxColumns = 1\<rparr>)
   \<and> (appointments m \<noteq> []
        \<and> (\<forall>a\<in>set (appointments m). \<exists>s e. parseTimes a = Some (s, e) \<and> s < e) \<longrightarrow>
      (\<exists>pm. processMember m = Some pm
         \<and> map appointment.truncate (pm_appointments pm) = sort_key startKey (appointments m)
         \<and> (\<forall>p\<in>set (pm_appointments pm).
               parseTimes (appointment.truncate p) = Some (startMinutes p, endMinutes p))
         \<and> maxColumns pm = fold max (map column (pm_appointments pm)) 0 + 1
         \<and> (\<forall>t. runningCount t (appointments m) \<le> maxColumns pm)
         \<and> (\<exists>t. runningCount t (appointments m) = maxColumns pm)
         \<and> (\<forall>t. activeCount t (pm_appointments pm) = runningCount t (appointments m))
         \<and> maxColumns pm = maxActive (pm_appointments pm)))"
proof (rule conjI; rule impI)
  assume "appointments m = []"
  then show "processMember m = Some \<lparr>pm_id = member_id m, pm_name = member_name m,
                               pm_appointments = [], maxColumns = 1\<rparr>"
    by (rule processMember_empty)
next
  assume h: "appointments m \<noteq> []
        \<and> (\<forall>a\<in>set (appointments m). \<exists>s e. parseTimes a = Some (s, e) \<and> s < e)"
  then have "\<forall>a\<in>set (appointments m). parseTimes a \<noteq> None" by fastforce
  then obtain ps where ps: "assignColumns (appointments m) = Some ps"
    using assignColumns_total by blast
  note props = assignColumns_properties [OF ps]
  from props(4) have "length ps = length (appointments m)"
    by (metis length_map length_sort)
  with h have ne: "ps \<noteq> []" by auto
  from h have hp: "\<forall>a\<in>set (appointments m). \<exists>s e. parseTimes a = Some (s, e) \<and> s < e"
    by (rule conjunct2)
  have proper: "\<forall>p\<in>set ps. startMinutes p < endMinutes p"
    using ps hp by (rule placed_proper)
  have eq: "maxColumnsOf ps = maxActive ps"
    using props(2) props(3) props(5) ne proper by (rule maxActive_eq)
  have run: "\<forall>t. activeCount t ps = runningCount t (appointments m)"
    using activeCount_runningCount [OF ps] by blast
  have upper: "\<forall>t. activeCount t ps \<le> maxColumnsOf ps"
    using activeCount_le_maxColumnsOf [OF props(2)] by blast
  from maxColumns_attained [OF props(3) props(5) ne proper]
  obtain p :: placed where "maxColumnsOf ps \<le> activeCount (startMinutes p) ps" by blast
  with upper have "activeCount (startMinutes p) ps = maxColumnsOf ps"
    by (simp add: le_antisym)
  with run have attained: "\<exists>t. runningCount t (appointments m) = maxColumnsOf ps"
    by metis
  from upper run have upper': "\<forall>t. runningCount t (appointments m) \<le> maxColumnsOf ps"
    by simp
  let ?pm = "\<lparr>pm_id = member_id m, pm_name = member_name m, pm_appointments = ps,
                maxColumns = maxColumnsOf ps\<rparr>"
  from ps have pm: "processMember m = Some ?pm" by (simp add: processMember_def)
  have "processMember m = Some ?pm
         \<and> map appointment.truncate (pm_appointments ?pm) = sort_key startKey (appointments m)
         \<and> (\<forall>p\<in>set (pm_appointments ?pm).
               parseTimes (appointment.truncate p) = Some (startMinutes p, endMinutes p))
         \<and> maxColumns ?pm = fold max (map column (pm_appointments ?pm)) 0 + 1
         \<and> (\<forall>t. runningCount t (appointments m) \<le> maxColumns ?pm)
         \<and> (\<exists>t. runningCount t (appointments m) = maxColumns ?pm)
         \<and> (\<forall>t. activeCount t (pm_appointments ?pm) = runningCount t (appointments m))
         \<and> maxColumns ?pm = maxActive (pm_appointments ?pm)"
    using pm props(4) placed_times [OF ps] upper' attained run eq
    by (simp add: maxColumnsOf_def)
  then show "\<exists>pm. processMember m = Some pm
         \<and> map appointment.truncate (pm_appointments pm) = sort_key startKey (appointments m)
         \<and> (\<forall>p\<in>set (pm_appointments pm).
               parseTimes (appointment.truncate p) = Some (startMinutes p, endMinutes p))
         \<and> maxColumns pm = fold max (map column (pm_appointments pm)) 0 + 1
         \<and> (\<forall>t. runningCount t (appointments m) \<le> maxColumns pm)
         \<and> (\<exists>t. runningCount t (appointments m) = maxColumns pm)
         \<and> (\<forall>t. activeCount t (pm_appointments pm) = runningCount t (appointments m))
         \<and> maxColumns pm = maxActive (pm_appointments pm)"
    by (rule exI)
qed

theorem columns_minimal_witness:
  "appointments (sampleMember [sampleAppointment ''09:30'' ''10:30'',
        sampleAppointment ''09:00'' ''10:00'', sampleAppointment ''10:00'' ''11:00'']) \<noteq> []
   \<and> (\<exists>pm. processMember (sampleMember [sampleAppointment ''09:30'' ''10:30'',
        sampleAppointment ''09:00'' ''10:00'', sampleAppointment ''10:00'' ''11:00'']) = Some pm
     \<and> map appointment.truncate (pm_appointments pm)
         = [sampleAppointment ''09:00'' ''10:00'', sampleAppointment ''09:30'' ''10:30'',
            sampleAppointment ''10:00'' ''11:00'']
     \<and> maxColumns pm = 2
     \<and> (\<forall>t. runningCount t [sampleAppointment ''09:30'' ''10:30'',
        sampleAppointment ''09:00'' ''10:00'', sampleAppointment ''10:00'' ''11:00''] \<le> maxColumns pm)
     \<and> (\<exists>t. runningCount t [sampleAppointment ''09:30'' ''10:30'',
        sampleAppointment ''09:00'' ''10:00'', sampleAppointment ''10:00'' ''11:00''] = maxColumns pm))
   \<and> processMember (sampleMember [])
       = Some \<lparr>pm_id = ''m1'', pm_name = ''Luz Mora'', pm_appointments = [], maxColumns = 1\<rparr>"
proof -
  let ?apts = "[sampleAppointment ''09:30'' ''10:30'',
        sampleAppointment ''09:00'' ''10:00'', sampleAppointment ''10:00'' ''11:00'']"
  let ?m = "sampleMember ?apts"
  have ap: "appointments ?m = ?apts" by (simp add: sampleMember_def)
  have ne: "appointments ?m \<noteq> []" by (simp add: sampleMember_def)
  have proper: "\<forall>a\<in>set (appointments ?m). \<exists>s e. parseTimes a = Some (s, e) \<and> s < e"
    by (simp add: sampleMember_def sample_parse)
  have sorted: "sort_key startKey ?apts
      = [sampleAppointment ''09:00'' ''10:00'', sampleAppointment ''09:30'' ''10:30'',
         sampleAppointment ''10:00'' ''11:00'']"
    by code_simp
  have two: "map_option maxColumns (processMember ?m) = Some 2" by code_simp
  from columns_minimal [of ?m, THEN conjunct2] ne proper
  obtain pm where pm: "processMember ?m = Some pm"
    "map appointment.truncate (pm_appointments pm) = sort_key startKey (appointments ?m)"
    "\<forall>t. runningCount t (appointments ?m) \<le> maxColumns pm"
    "\<exists>t. runningCount t (appointments ?m) = maxColumns pm"
    by blast
  from pm(1) two have "maxColumns pm = 2" by simp
  with pm ap sorted have 1: "\<exists>pm. processMember ?m = Some pm
     \<and> map appointment.truncate (pm_appointments pm)
         = [sampleAppointment ''09:00'' ''10:00'', sampleAppointment ''09:30'' ''10:30'',
            sampleAppointment ''10:00'' ''11:00'']
     \<and> maxColumns pm = 2
     \<and> (\<forall>t. runningCount t ?apts \<le> maxColumns pm)
     \<and> (\<exists>t. runningCount t ?apts = maxColumns pm)"
    by (intro exI [of _ pm]) simp
  have "appointments (sampleMember []) = []" by (simp add: sampleMember_def)
  with columns_minimal [of "sampleMember []", THEN conjunct1]
  have 2: "processMember (sampleMember [])
       = Some \<lparr>pm_id = ''m1'', pm_name = ''Luz Mora'', pm_appointments = [], maxColumns = 1\<rparr>"
    by (simp add: sampleMember_def)
  from ne 1 2 show ?thesis by (intro conjI)
qed

text \<open>
  Claim C1 as the specification words it, for every set of appointments, fails on a member
  with no appointment, where \<open>maxColumns\<close> is 1 and nothing runs at any instant
  (\<open>activeCount_le_maxActive\<close>: no instant has more than \<open>maxActive\<close>), and on an
  appointment from 09:00 to 10:00 with one whose end time is given as its start time 09:30:
  two columns, and never more than one appointment running.
\<close>

theorem columns_minimal_counterexample:
  "map_option maxColumns (processMember (sampleMember [])) = Some 1
   \<and> map_option (maxActive \<circ> pm_appointments) (processMember (sampleMember [])) = Some 0
   \<and> map_option maxColumns (processMember (sampleMember
        [sampleAppointment ''09:00'' ''10:00'', sampleAppointment ''09:30'' ''09:30''])) = Some 2
   \<and> map_option (maxActive \<circ> pm_appointments) (processMember (sampleMember
        [sampleAppointment ''09:00'' ''10:00'', sampleAppointment ''09:30'' ''09:30''])) = Some 1"
  by code_simp


section \<open>End time of an appointment\<close>

text \<open>
  Claim C4, as the code has it. For an appointment whose contact and service rows are
  there: an end time that is given and not empty is used as it is, whatever the duration
  of the service; without one, a duration other than zero gives the end
  \<open>start + duration\<close>; and with no duration, or the duration zero, the end is
  \<open>start + 30\<close>. The end is written by \<open>minutesToTime\<close>, and reading it back gives
  that number of minutes when it is not negative.
\<close>

theorem end_time_precedence:
  assumes "apt_contacts apt = Some c" and "apt_services apt = Some sv"
  shows "(\<forall>e. apt_end_time apt = Some e \<and> e \<noteq> [] \<longrightarrow>
            (\<exists>a. normalizeAppointment apt = Inr a \<and> end_time a = e))
     \<and> (\<forall>s d. \<not> truthy_string (apt_end_time apt) \<and> timeToMinutes (apt_start_time apt) = Some s
            \<and> duration_minutes sv = Some d \<and> d \<noteq> 0 \<longrightarrow>
            (\<exists>a. normalizeAppointment apt = Inr a \<and> end_time a = minutesToTime (s + d)
                 \<and> (0 \<le> s + d \<longrightarrow> timeToMinutes (end_time a) = Some (s + d))))
     \<and> (\<forall>s. \<not> truthy_string (apt_end_time apt) \<and> timeToMinutes (apt_start_time apt) = Some s
            \<and> (duration_minutes sv = None \<or> duration_minutes sv = Some 0) \<longrightarrow>
            (\<exists>a. normalizeAppointment apt = Inr a \<and> end_time a = minutesToTime (s + 30)
                 \<and> (0 \<le> s + 30 \<longrightarrow> timeToMinutes (end_time a) = Some (s + 30))))"
proof (intro conjI allI impI)
  fix e assume "apt_end_time apt = Some e \<and> e \<noteq> []"
  then have "deriveEndTime apt = Inr e" by (simp add: deriveEndTime_explicit)
  with assms show "\<exists>a. normalizeAppointment apt = Inr a \<and> end_time a = e"
    using normalizeAppointment_end_time by blast
next
  fix s d
  assume h: "\<not> truthy_string (apt_end_time apt) \<and> timeToMinutes (apt_start_time apt) = Some s
            \<and> duration_minutes sv = Some d \<and> d \<noteq> 0"
  with assms(2) have "deriveEndTime apt = Inr (minutesToTime (s + d))"
    by (simp add: deriveEndTime_duration)
  with assms obtain a where "normalizeAppointment apt = Inr a" "end_time a = minutesToTime (s + d)"
    using normalizeAppointment_end_time by blast
  then show "\<exists>a. normalizeAppointment apt = Inr a \<and> end_time a = minutesToTime (s + d)
                 \<and> (0 \<le> s + d \<longrightarrow> timeToMinutes (end_time a) = Some (s + d))"
    by (auto simp: timeToMinutes_minutesToTime)
next
  fix s
  assume h: "\<not> truthy_string (apt_end_time apt) \<and> timeToMinutes (apt_start_time apt) = Some s
            \<and> (duration_minutes sv = None \<or> duration_minutes sv = Some 0)"
  with assms(2) have "deriveEndTime apt = Inr (minutesToTime (s + 30))"
    using deriveEndTime_default [of apt sv s] by simp
  with assms obtain a where "normalizeAppointment apt = Inr a" "end_time a = minutesToTime (s + 30)"
    using normalizeAppointment_end_time by blast
  then show "\<exists>a. normalizeAppointment apt = Inr a \<and> end_time a = minutesToTime (s + 30)
                 \<and> (0 \<le> s + 30 \<longrightarrow> timeToMinutes (end_time a) = Some (s + 30))"
    by (auto simp: timeToMinutes_minutesToTime)
qed

theorem end_time_precedence_witness:
  "(\<exists>a. normalizeAppointment
        \<lparr>apt_start_time = ''10:00'', apt_end_time = Some ''11:15'',
         apt_contacts = Some \<lparr>first_name = ''Ana'', last_name = ''Ruiz''\<rparr>,
         apt_services = Some \<lparr>service_name = ''Corte'', duration_minutes = Some 45\<rparr>,
         apt_status = None\<rparr> = Inr a \<and> end_time a = ''11:15'')
   \<and> (\<exists>a. normalizeAppointment
        \<lparr>apt_start_time = ''10:00'', apt_end_time = None,
         apt_contacts = Some \<lparr>first_name = ''Ana'', last_name = ''Ruiz''\<rparr>,
         apt_services = Some \<lparr>service_name = ''Corte'', duration_minutes = Some 45\<rparr>,
         apt_status = None\<rparr> = Inr a \<and> end_time a = ''10:45''
         \<and> timeToMinutes (end_time a) = Some 645)
   \<and> (\<exists>a. normalizeAppointment
        \<lparr>apt_start_time = ''10:00'', apt_end_time = None,
         apt_contacts = Some \<lparr>first_name = ''Ana'', last_name = ''Ruiz''\<rparr>,
         apt_services = Some \<lparr>service_name = ''Corte'', duration_minutes = None\<rparr>,
         apt_status = None\<rparr> = Inr a \<and> end_time a = ''10:30''
         \<and> timeToMinutes (end_time a) = Some 630)"
proof -
  let ?c = "\<lparr>first_name = ''Ana'', last_name = ''Ruiz''\<rparr>"
  let ?sv = "\<lparr>service_name = ''Corte'', duration_minutes = Some 45\<rparr>"
  let ?nodur = "\<lparr>service_name = ''Corte'', duration_minutes = None\<rparr>"
  let ?a1 = "\<lparr>apt_start_time = ''10:00'', apt_end_time = Some ''11:15'',
         apt_contacts = Some ?c, apt_services = Some ?sv, apt_status = None\<rparr>"
  let ?a2 = "\<lparr>apt_start_time = ''10:00'', apt_end_time = None,
         apt_contacts = Some ?c, apt_services = Some ?sv, apt_status = None\<rparr>"
  let ?a3 = "\<lparr>apt_start_time = ''10:00'', apt_end_time = None,
         apt_contacts = Some ?c, apt_services = Some ?nodur, apt_status = None\<rparr>"
  have start: "timeToMinutes ''10:00'' = Some 600" by code_simp
  have m1: "minutesToTime 645 = ''10:45''" by code_simp
  have m2: "minutesToTime 630 = ''10:30''" by code_simp
  have "\<exists>a. normalizeAppointment ?a1 = Inr a \<and> end_time a = ''11:15''"
    using end_time_precedence [of ?a1 ?c ?sv, THEN conjunct1, rule_format, of "''11:15''"]
    by simp
  moreover have "\<exists>a. normalizeAppointment ?a2 = Inr a \<and> end_time a = ''10:45''
         \<and> timeToMinutes (end_time a) = Some 645"
    using end_time_precedence [of ?a2 ?c ?sv, THEN conjunct2, THEN conjunct1, rule_format,
        of 600 45] start m1
    by (simp add: truthy_string_def)
  moreover have "\<exists>a. normalizeAppointment ?a3 = Inr a \<and> end_time a = ''10:30''
         \<and> timeToMinutes (end_time a) = Some 630"
    using end_time_precedence [of ?a3 ?c ?nodur, THEN conjunct2, THEN conjunct2, rule_format,
        of 600] start m2
    by (simp add: truthy_string_def)
  ultimately show ?thesis by (intro conjI)
qed

text \<open>
  Claim C4 as the specification words it, with the end \<open>start + duration\<close> for every known
  duration, fails for the known duration zero: from 10:00 the end is 10:30, not 10:00.
\<close>

theorem end_time_duration_counterexample:
  "normalizeAppointment
        \<lparr>apt_start_time = ''10:00'', apt_end_time = None,
         apt_contacts = Some \<lparr>first_name = ''Ana'', last_name = ''Ruiz''\<rparr>,
         apt_services = Some \<lparr>service_name = ''Corte'', duration_minutes = Some 0\<rparr>,
         apt_status = None\<rparr>
     = Inr \<lparr>start_time = ''10:00'', end_time = ''10:30'', client = ''Ana Ruiz'',
            service = ''Corte'', status = ''programada''\<rparr>
   \<and> timeToMinutes ''10:00'' = Some 600
   \<and> minutesToTime (600 + 0) = ''10:00''"
  by code_simp

text \<open>
  Claim C10. An appointment with no end time whose service has the duration zero ends
  thirty minutes after its start, not at its start, and is built exactly as if the service
  had no duration.
\<close>

theorem zero_duration_default:
  assumes "apt_contacts apt = Some c" and "apt_services apt = Some sv"
    and "duration_minutes sv = Some 0" and "\<not> truthy_string (apt_end_time apt)"
    and "timeToMinutes (apt_start_time apt) = Some s" and "0 \<le> s"
  shows "(\<exists>a. normalizeAppointment apt = Inr a \<and> end_time a = minutesToTime (s + 30)
            \<and> timeToMinutes (end_time a) = Some (s + 30)
            \<and> timeToMinutes (end_time a) \<noteq> Some (s + 0))
     \<and> normalizeAppointment apt
         = normalizeAppointment (apt\<lparr>apt_services := Some (sv\<lparr>duration_minutes := None\<rparr>)\<rparr>)"
proof
  from assms have "deriveEndTime apt = Inr (minutesToTime (s + 30))"
    using deriveEndTime_default [of apt sv s] by simp
  with assms(1,2) obtain a where a: "normalizeAppointment apt = Inr a"
      "end_time a = minutesToTime (s + 30)"
    using normalizeAppointment_end_time by blast
  with assms(6) have "timeToMinutes (end_time a) = Some (s + 30)"
    by (simp add: timeToMinutes_minutesToTime)
  with a show "\<exists>a. normalizeAppointment apt = Inr a \<and> end_time a = minutesToTime (s + 30)
            \<and> timeToMinutes (end_time a) = Some (s + 30)
            \<and> timeToMinutes (end_time a) \<noteq> Some (s + 0)"
    by auto
next
  from assms(2,3) show "normalizeAppointment apt
         = normalizeAppointment (apt\<lparr>apt_services := Some (sv\<lparr>duration_minutes := None\<rparr>)\<rparr>)"
    by (simp add: normalizeAppointment_def deriveEndTime_def truthy_duration_def
        split: option.splits)
qed

theorem zero_duration_default_witness:
  "\<exists>a. normalizeAppointment
        \<lparr>apt_start_time = ''14:20'', apt_end_time = None,
         apt_contacts = Some \<lparr>first_name = ''Ana'', last_name = ''Ruiz''\<rparr>,
         apt_services = Some \<lparr>service_name = ''Corte'', duration_minutes = Some 0\<rparr>,
         apt_status = None\<rparr> = Inr a
     \<and> end_time a = ''14:50'' \<and> timeToMinutes (end_time a) = Some 890
     \<and> timeToMinutes (end_time a) \<noteq> Some 860"
proof -
  let ?c = "\<lparr>first_name = ''Ana'', last_name = ''Ruiz''\<rparr>"
  let ?sv = "\<lparr>service_name = ''Corte'', duration_minutes = Some 0\<rparr>"
  let ?a = "\<lparr>apt_start_time = ''14:20'', apt_end_time = None,
         apt_contacts = Some ?c, apt_services = Some ?sv, apt_status = None\<rparr>"
  have start: "timeToMinutes (apt_start_time ?a) = Some 860" by code_simp
  have m: "minutesToTime 890 = ''14:50''" by code_simp
  have nt: "\<not> truthy_string (apt_end_time ?a)" by (simp add: truthy_string_def)
  have "(0::int) \<le> 860" by simp
  from zero_duration_default [of ?a ?c ?sv 860, OF _ _ _ nt start this, THEN conjunct1] m
  show ?thesis by simp
qed


section \<open>View window\<close>

lemma scanTimes_fold:
  "scanTimes (e, l) ts = (fold min (map fst ts) e, fold max (map snd ts) l)"
  by (induction ts arbitrary: e l) (auto simp: min_def max_def)

lemma scanTimes_Min_Max:
  assumes "ts \<noteq> []"
  shows "scanTimes (e, l) ts = (min e (Min (fst ` set ts)), max l (Max (snd ` set ts)))"
proof -
  have "fold min (map fst ts) e = Min (set (e # map fst ts))"
    by (simp only: Min.set_eq_fold)
  also have "\<dots> = min e (Min (fst ` set ts))"
    using assms by (simp add: Min_insert)
  finally have 1: "fold min (map fst ts) e = min e (Min (fst ` set ts))" .
  have "fold max (map snd ts) l = Max (set (l # map snd ts))"
    by (simp only: Max.set_eq_fold)
  also have "\<dots> = max l (Max (snd ` set ts))"
    using assms by (simp add: Max_insert)
  finally have 2: "fold max (map snd ts) l = max l (Max (snd ` set ts))" .
  from 1 2 show ?thesis by (simp add: scanTimes_fold)
qed

lemma windowOfTimes_nonempty:
  assumes "ts \<noteq> []" and "Min (fst ` set ts) < 1440" and "0 \<le> Max (snd ` set ts)"
  shows "windowOfTimes ts =
     \<lparr>startHour = max 0 (Min (fst ` set ts) - 60) div 60,
      endHour = - (- min 1440 (Max (snd ` set ts) + 60) div 60),
      totalMinutes = (- (- min 1440 (Max (snd ` set ts) + 60) div 60)
                       - max 0 (Min (fst ` set ts) - 60) div 60) * 60\<rparr>"
proof -
  define m where "m = Min (fst ` set ts)"
  define M where "M = Max (snd ` set ts)"
  from assms have "scanTimes (24 * 60, 0) ts = (m, M)"
    by (simp add: scanTimes_Min_Max m_def M_def)
  moreover from assms(2) have "m \<noteq> 24 * 60" by (simp add: m_def)
  ultimately show ?thesis
    unfolding m_def [symmetric] M_def [symmetric]
    by (simp add: windowOfTimes_def)
qed

lemma those_list_length: "those_list xs = Some ys \<Longrightarrow> length ys = length xs"
  by (induction xs arbitrary: ys) (auto split: option.splits)

text \<open>
  The window on times of day. With no appointment at all the window is 8 to 18, 600
  minutes. With appointments, all of whose times are read, whose earliest start \<open>m\<close> is
  before 24:00 and whose latest end \<open>M\<close> is not negative, the window starts at the hour
  \<open>floor (max 0 (m - 60) / 60)\<close>, ends at the hour \<open>ceiling (min 1440 (M + 60) / 60)\<close> and
  has 60 minutes for each hour between. A single appointment from 07:30 to 08:00 gives the
  start hour 6, and an appointment ending at 23:45 the end hour 24.
\<close>

theorem view_window:
  "(allAppointments members = [] \<longrightarrow>
      computeWindow members = Some \<lparr>startHour = 8, endHour = 18, totalMinutes = 600\<rparr>)
   \<and> (\<forall>ts. allAppointments members \<noteq> []
         \<and> those_list (map parseTimes (allAppointments members)) = Some ts
         \<and> Min (fst ` set ts) < 1440 \<and> 0 \<le> Max (snd ` set ts) \<longrightarrow>
       (\<exists>w. computeWindow members = Some w
          \<and> startHour w = \<lfloor>real_of_int (max 0 (Min (fst ` set ts) - 60)) / 60\<rfloor>
          \<and> endHour w = \<lceil>real_of_int (min 1440 (Max (snd ` set ts) + 60)) / 60\<rceil>
          \<and> totalMinutes w = (endHour w - startHour w) * 60))
   \<and> map_option startHour (computeWindow [sampleMember [sampleAppointment ''07:30'' ''08:00'']])
       = Some 6
   \<and> map_option endHour (computeWindow [sampleMember [sampleAppointment ''23:00'' ''23:45'']])
       = Some 24"
proof (intro conjI allI impI)
  assume "allAppointments members = []"
  then show "computeWindow members = Some \<lparr>startHour = 8, endHour = 18, totalMinutes = 600\<rparr>"
    by (simp add: computeWindow_def windowOfTimes_def)
next
  fix ts
  assume h: "allAppointments members \<noteq> []
         \<and> those_list (map parseTimes (allAppointments members)) = Some ts
         \<and> Min (fst ` set ts) < 1440 \<and> 0 \<le> Max (snd ` set ts)"
  then have "length ts = length (allAppointments members)"
    using those_list_length by fastforce
  with h have ne: "ts \<noteq> []" by auto
  have fl: "\<lfloor>real_of_int k / 60\<rfloor> = k div 60" for k
    using floor_divide_of_int_eq [of k 60, where ?'a = real] by simp
  have cl: "\<lceil>real_of_int k / 60\<rceil> = - (- k div 60)" for k
    using ceiling_divide_eq_div [of k 60, where ?'a = real] by simp
  from h have "computeWindow members = Some (windowOfTimes ts)"
    by (simp add: computeWindow_def)
  moreover note windowOfTimes_nonempty [OF ne]
  ultimately show "\<exists>w. computeWindow members = Some w
          \<and> startHour w = \<lfloor>real_of_int (max 0 (Min (fst ` set ts) - 60)) / 60\<rfloor>
          \<and> endHour w = \<lceil>real_of_int (min 1440 (Max (snd ` set ts) + 60)) / 60\<rceil>
          \<and> totalMinutes w = (endHour w - startHour w) * 60"
    using h by (simp add: fl cl)
next
  show "map_option startHour (computeWindow [sampleMember [sampleAppointment ''07:30'' ''08:00'']])
       = Some 6"
    by code_simp
next
  show "map_option endHour (computeWindow [sampleMember [sampleAppointment ''23:00'' ''23:45'']])
       = Some 24"
    by code_simp
qed

theorem view_window_witness:
  "allAppointments [sampleMember [sampleAppointment ''07:30'' ''08:00'',
        sampleAppointment ''16:10'' ''17:05'']] \<noteq> []
   \<and> those_list (map parseTimes (allAppointments [sampleMember [sampleAppointment ''07:30'' ''08:00'',
        sampleAppointment ''16:10'' ''17:05'']])) = Some [(450, 480), (970, 1025)]
   \<and> computeWindow [sampleMember [sampleAppointment ''07:30'' ''08:00'',
        sampleAppointment ''16:10'' ''17:05'']]
       = Some \<lparr>startHour = 6, endHour = 19, totalMinutes = 780\<rparr>
   \<and> computeWindow [sampleMember []]
       = Some \<lparr>startHour = 8, endHour = 18, totalMinutes = 600\<rparr>"
proof -
  let ?ms = "[sampleMember [sampleAppointment ''07:30'' ''08:00'',
        sampleAppointment ''16:10'' ''17:05'']]"
  have ne: "allAppointments ?ms \<noteq> []" by code_simp
  have ts: "those_list (map parseTimes (allAppointments ?ms)) = Some [(450, 480), (970, 1025)]"
    by code_simp
  have b: "Min (fst ` set [(450::int, 480::int), (970, 1025)]) < 1440
      \<and> 0 \<le> Max (snd ` set [(450::int, 480::int), (970, 1025)])"
    by simp
  from view_window [of ?ms, THEN conjunct2, THEN conjunct1, rule_format,
      of "[(450, 480), (970, 1025)]"] ne ts b
  obtain w where w: "computeWindow ?ms = Some w"
    "startHour w = \<lfloor>real_of_int (max 0 (Min (fst ` set [(450::int, 480::int), (970, 1025)]) - 60)) / 60\<rfloor>"
    "endHour w = \<lceil>real_of_int (min 1440 (Max (snd ` set [(450::int, 480::int), (970, 1025)]) + 60)) / 60\<rceil>"
    "totalMinutes w = (endHour w - startHour w) * 60"
    by blast
  from w(2) have sh: "startHour w = 6" by simp
  from w(3) have eh: "endHour w = 19" by simp
  from w(4) sh eh have "totalMinutes w = 780" by simp
  with sh eh have "w = \<lparr>startHour = 6, endHour = 19, totalMinutes = 780\<rparr>" by simp
  with w(1) have 1: "computeWindow ?ms = Some \<lparr>startHour = 6, endHour = 19, totalMinutes = 780\<rparr>"
    by simp
  have "allAppointments [sampleMember []] = []" by code_simp
  with view_window [of "[sampleMember []]", THEN conjunct1]
  have 2: "computeWindow [sampleMember []] = Some \<lparr>startHour = 8, endHour = 18, totalMinutes = 600\<rparr>"
    by blast
  from ne ts 1 2 show ?thesis by (intro conjI)
qed


text \<open>
  Claim C3 at a start of 24:00. The scan keeps \<open>earliestTime\<close> at its first value
  \<open>24 * 60\<close> when no appointment starts before 24:00, and the test
  \<^verbatim>\<open>earliestTime === 24 * 60\<close>, written for a day with no appointment, then takes the
  default window. For the single appointment from 24:00 to 24:30, also when its end comes
  from a duration of 30 minutes, the window is 8 to 18, where the claim's formula on the
  earliest start 1440 and the latest end 1470 gives the hours 23 and 24.
\<close>

theorem view_window_sentinel:
  "those_list (map parseTimes (allAppointments
        [sampleMember [sampleAppointment ''24:00'' ''24:30'']])) = Some [(1440, 1470)]
   \<and> computeWindow [sampleMember [sampleAppointment ''24:00'' ''24:30'']]
       = Some \<lparr>startHour = 8, endHour = 18, totalMinutes = 600\<rparr>
   \<and> map_sum id lay_window (layoutEngine
        [\<lparr>profile_id = Some ''m1'', profile_first_name = ''Luz'', profile_last_name = ''Mora'',
          group_appointments =
            [\<lparr>apt_start_time = ''24:00'', apt_end_time = None,
              apt_contacts = Some \<lparr>first_name = ''Ana'', last_name = ''Ruiz''\<rparr>,
              apt_services = Some \<lparr>service_name = ''Corte'', duration_minutes = Some 30\<rparr>,
              apt_status = None\<rparr>]\<rparr>])
       = Inr \<lparr>startHour = 8, endHour = 18, totalMinutes = 600\<rparr>
   \<and> \<lfloor>real_of_int (max 0 (1440 - 60)) / 60\<rfloor> = 23
   \<and> \<lceil>real_of_int (min 1440 (1470 + 60)) / 60\<rceil> = 24"
proof (intro conjI)
  show "those_list (map parseTimes (allAppointments
        [sampleMember [sampleAppointment ''24:00'' ''24:30'']])) = Some [(1440, 1470)]"
    by code_simp
  show "computeWindow [sampleMember [sampleAppointment ''24:00'' ''24:30'']]
       = Some \<lparr>startHour = 8, endHour = 18, totalMinutes = 600\<rparr>"
    by code_simp
  show "map_sum id lay_window (layoutEngine
        [\<lparr>profile_id = Some ''m1'', profile_first_name = ''Luz'', profile_last_name = ''Mora'',
          group_appointments =
            [\<lparr>apt_start_time = ''24:00'', apt_end_time = None,
              apt_contacts = Some \<lparr>first_name = ''Ana'', last_name = ''Ruiz''\<rparr>,
              apt_services = Some \<lparr>service_name = ''Corte'', duration_minutes = Some 30\<rparr>,
              apt_status = None\<rparr>]\<rparr>])
       = Inr \<lparr>startHour = 8, endHour = 18, totalMinutes = 600\<rparr>"
    by code_simp
  show "\<lfloor>real_of_int (max 0 (1440 - 60)) / 60\<rfloor> = 23" by simp
  show "\<lceil>real_of_int (min 1440 (1470 + 60)) / 60\<rceil> = 24" by simp
qed

section \<open>Webhook delivery in the scheduled job\<close>

lemma processConfig_responds:
  assumes "appointments_query config = QueryRows n" and "0 < n"
    and "image_generation config = ImageReturns (Some url)" and "url \<noteq> []"
    and "webhook_fetch config = FetchResponds ok"
  shows "results (processConfig config st)
           = results st @ [StatusSuccess (organization_name config) n (recipient_phone config)]"
    and "fetch_calls (processConfig config st) = Suc (fetch_calls st)"
    and "\<not> ok \<Longrightarrow> ConsoleError ''Webhook failed'' \<in> set (console (processConfig config st))"
  using assms
  by (simp_all add: processConfig_def Let_def say_def push_def truthy_string_def)

lemma processConfig_rejects:
  assumes "appointments_query config = QueryRows n" and "0 < n"
    and "image_generation config = ImageReturns (Some url)" and "url \<noteq> []"
    and "webhook_fetch config = FetchRejects msg"
  shows "results (processConfig config st)
           = results st @ [StatusError (organization_name config) msg]"
    and "fetch_calls (processConfig config st) = Suc (fetch_calls st)"
  using assms
  by (simp_all add: processConfig_def Let_def say_def push_def truthy_string_def)

lemma results_processConfig: "\<exists>rs. results (processConfig config st) = results st @ rs"
  by (auto simp: processConfig_def Let_def say_def push_def
      split: query_outcome.splits image_outcome.splits fetch_outcome.splits)

lemma handler_status: "statusCode (handler (ConfigsToProcess cs)) = 200"
  by (simp add: handler_def)


lemma results_fold_processConfig:
  "\<exists>rs. results (fold processConfig cs st) = results st @ rs"
proof (induction cs arbitrary: st)
  case Nil
  then show ?case by simp
next
  case (Cons c cs)
  obtain r1 where r1: "results (processConfig c st) = results st @ r1"
    using results_processConfig by blast
  obtain r2 where "results (fold processConfig cs (processConfig c st))
      = results (processConfig c st) @ r2"
    using Cons.IH by blast
  with r1 show ?case by simp
qed

lemma handler_results_around:
  assumes "\<And>st. results (processConfig config st) = results st @ [entry]"
  shows "\<exists>rs1 rs2. response_results (handler (ConfigsToProcess (before @ config # after)))
           = rs1 @ entry # rs2"
proof -
  let ?init = "\<lparr>results = [], console = [], fetch_calls = 0\<rparr>"
  let ?st1 = "fold processConfig before ?init"
  let ?st2 = "processConfig config ?st1"
  obtain rs2 where "results (fold processConfig after ?st2) = results ?st2 @ rs2"
    using results_fold_processConfig by blast
  with assms have "results (fold processConfig after ?st2) = results ?st1 @ entry # rs2"
    by simp
  then show ?thesis
    by (auto simp: handler_def runConfigs_def)
qed

text \<open>
Claim C9, as the code has it. For an organization with appointments whose image was
  generated: when the webhook answers, whatever its status, the round pushes the entry
  with status \<open>success\<close>, after one fetch, and an answer that is not \<open>ok\<close> is written to
  the error console; when the fetch itself is rejected, the round pushes an entry with
  status \<open>error\<close> and the message, again after one fetch. In both cases the entry is in
  the results of the run, among those of the organizations before and after, and the
  handler answers 200.
\<close>

theorem webhook_failure_reporting:
  assumes "appointments_query config = QueryRows n" and "0 < n"
    and "image_generation config = ImageReturns (Some url)" and "url \<noteq> []"
  shows "(\<forall>ok. webhook_fetch config = FetchResponds ok \<longrightarrow>
            results (processConfig config st)
              = results st @ [StatusSuccess (organization_name config) n (recipient_phone config)]
            \<and> fetch_calls (processConfig config st) = Suc (fetch_calls st)
            \<and> (\<not> ok \<longrightarrow> ConsoleError ''Webhook failed'' \<in> set (console (processConfig config st)))
            \<and> (\<exists>rs1 rs2. response_results (handler (ConfigsToProcess (before @ config # after)))
                  = rs1 @ StatusSuccess (organization_name config) n (recipient_phone config) # rs2))
     \<and> (\<forall>msg. webhook_fetch config = FetchRejects msg \<longrightarrow>
            results (processConfig config st)
              = results st @ [StatusError (organization_name config) msg]
            \<and> fetch_calls (processConfig config st) = Suc (fetch_calls st)
            \<and> (\<exists>rs1 rs2. response_results (handler (ConfigsToProcess (before @ config # after)))
                  = rs1 @ StatusError (organization_name config) msg # rs2))
     \<and> statusCode (handler (ConfigsToProcess (before @ config # after))) = 200"
proof (intro conjI allI impI)
  fix ok assume ok: "webhook_fetch config = FetchResponds ok"
  note r = processConfig_responds [OF assms ok]
  show "results (processConfig config st)
              = results st @ [StatusSuccess (organization_name config) n (recipient_phone config)]"
    by (rule r(1))
  show "fetch_calls (processConfig config st) = Suc (fetch_calls st)"
    by (rule r(2))
  show "ConsoleError ''Webhook failed'' \<in> set (console (processConfig config st))" if "\<not> ok"
    using that by (rule r(3))
  show "\<exists>rs1 rs2. response_results (handler (ConfigsToProcess (before @ config # after)))
                  = rs1 @ StatusSuccess (organization_name config) n (recipient_phone config) # rs2"
    by (rule handler_results_around) (rule r(1))
next
  fix msg assume rej: "webhook_fetch config = FetchRejects msg"
  note r = processConfig_rejects [OF assms rej]
  show "results (processConfig config st)
              = results st @ [StatusError (organization_name config) msg]"
    by (rule r(1))
  show "fetch_calls (processConfig config st) = Suc (fetch_calls st)"
    by (rule r(2))
  show "\<exists>rs1 rs2. response_results (handler (ConfigsToProcess (before @ config # after)))
                  = rs1 @ StatusError (organization_name config) msg # rs2"
    by (rule handler_results_around) (rule r(1))
next
  show "statusCode (handler (ConfigsToProcess (before @ config # after))) = 200"
    by (rule handler_status)
qed

theorem webhook_failure_reporting_witness:
  "handler (ConfigsToProcess
      [\<lparr>organization_name = ''Salon Luz'', recipient_phone = ''+573001112233'',
        appointments_query = QueryRows 4,
        image_generation = ImageReturns (Some ''https://example.test/agenda.png''),
        webhook_fetch = FetchResponds False\<rparr>])
    = \<lparr>statusCode = 200, message = ''WhatsApp agenda notifications processed'',
       response_results = [StatusSuccess ''Salon Luz'' 4 ''+573001112233'']\<rparr>"
proof -
  let ?c = "\<lparr>organization_name = ''Salon Luz'', recipient_phone = ''+573001112233'',
        appointments_query = QueryRows 4,
        image_generation = ImageReturns (Some ''https://example.test/agenda.png''),
        webhook_fetch = FetchResponds False\<rparr>"
  let ?init = "\<lparr>results = [], console = [], fetch_calls = 0\<rparr>"
  have "results (processConfig ?c ?init)
      = results ?init @ [StatusSuccess (organization_name ?c) 4 (recipient_phone ?c)]"
    using webhook_failure_reporting [of ?c 4 "''https://example.test/agenda.png''" ?init "[]" "[]",
        THEN conjunct1, rule_format, of False]
    by simp
  then show ?thesis
    by (simp add: handler_def runConfigs_def)
qed

text \<open>
Claim C9 as the specification words it, with every delivery failure only logged and the
  organization reported as successful, fails when the fetch is rejected: the entry of the
  organization has the status \<open>error\<close>.
\<close>

theorem webhook_rejected_counterexample:
  "handler (ConfigsToProcess
      [\<lparr>organization_name = ''Salon Luz'', recipient_phone = ''+573001112233'',
        appointments_query = QueryRows 4,
        image_generation = ImageReturns (Some ''https://example.test/agenda.png''),
        webhook_fetch = FetchRejects ''fetch failed''\<rparr>])
    = \<lparr>statusCode = 200, message = ''WhatsApp agenda notifications processed'',
       response_results = [StatusError ''Salon Luz'' ''fetch failed'']\<rparr>"
  by (simp add: handler_def runConfigs_def processConfig_def Let_def say_def push_def
      truthy_string_def)


section \<open>Status of an appointment\<close>

lemma deriveEndTime_defined:
  assumes "truthy_string (apt_end_time apt) \<or> timeToMinutes (apt_start_time apt) \<noteq> None"
  shows "\<exists>e. deriveEndTime apt = Inr e"
  using assms
  by (auto simp: deriveEndTime_def split: option.splits)

lemma normalizeAppointment_status:
  assumes "apt_contacts apt = Some c" and "apt_services apt = Some sv"
    and "deriveEndTime apt = Inr e"
  shows "\<exists>a. normalizeAppointment apt = Inr a \<and> status a = string_or (apt_status apt) ''programada''"
  using assms by (simp add: normalizeAppointment_def)

text \<open>
Claim C5, as the code has it. An appointment with its contact and service rows, and an
  end time given or a start time that is read, is built without an exception. When its
  status is missing or empty the status is \<open>programada\<close>, for which the table has the
  scheduled style and the style sheet its rule; a status that is given is kept as it is,
  in the table or not. The class attribute of the appointment carries that status after
  the class \<open>appointment\<close>.
\<close>

theorem status_fallback:
  assumes "apt_contacts apt = Some c" and "apt_services apt = Some sv"
    and "truthy_string (apt_end_time apt) \<or> timeToMinutes (apt_start_time apt) \<noteq> None"
  shows "\<exists>a. normalizeAppointment apt = Inr a
     \<and> (apt_status apt = None \<or> apt_status apt = Some [] \<longrightarrow>
          status a = ''programada''
          \<and> map_of APPOINTMENT_STATES (status a)
              = Some \<lparr>label = ''Programada'', bgColor = ''#f3f4f6'',
                       borderColor = ''#9ca3af'', textColor = ''#374151''\<rparr>
          \<and> map_of statusRules (''.appointment.'' @ status a)
              = Some [(''background'', ''#f3f4f6''), (''border-color'', ''#9ca3af''),
                      (''color'', ''#374151'')])
     \<and> (\<forall>s. apt_status apt = Some s \<and> s \<noteq> [] \<longrightarrow> status a = s)
     \<and> (\<forall>pm p. status p = status a \<longrightarrow>
          (\<exists>rest. appointmentClass pm p = ''appointment '' @ status a @ '' '' @ rest))"
proof -
  from assms(3) obtain e where "deriveEndTime apt = Inr e"
    using deriveEndTime_defined by blast
  with assms(1,2) obtain a where a: "normalizeAppointment apt = Inr a"
      "status a = string_or (apt_status apt) ''programada''"
    using normalizeAppointment_status by blast
  have lookup: "map_of APPOINTMENT_STATES ''programada''
              = Some \<lparr>label = ''Programada'', bgColor = ''#f3f4f6'',
                       borderColor = ''#9ca3af'', textColor = ''#374151''\<rparr>"
    by (simp add: APPOINTMENT_STATES_def)
  have rule: "map_of statusRules ''.appointment.programada''
              = Some [(''background'', ''#f3f4f6''), (''border-color'', ''#9ca3af''),
                      (''color'', ''#374151'')]"
    by (simp add: statusRules_def APPOINTMENT_STATES_def)
  have missing: "status a = ''programada''
          \<and> map_of APPOINTMENT_STATES (status a)
              = Some \<lparr>label = ''Programada'', bgColor = ''#f3f4f6'',
                       borderColor = ''#9ca3af'', textColor = ''#374151''\<rparr>
          \<and> map_of statusRules (''.appointment.'' @ status a)
              = Some [(''background'', ''#f3f4f6''), (''border-color'', ''#9ca3af''),
                      (''color'', ''#374151'')]"
    if "apt_status apt = None \<or> apt_status apt = Some []"
  proof -
    from that a(2) have "status a = ''programada''"
      by (auto simp: string_or_def)
    with lookup rule show ?thesis by simp
  qed
  have given: "\<forall>s. apt_status apt = Some s \<and> s \<noteq> [] \<longrightarrow> status a = s"
    using a(2) by (simp add: string_or_def)
  have cls: "\<forall>pm p. status p = status a \<longrightarrow>
          (\<exists>rest. appointmentClass pm p = ''appointment '' @ status a @ '' '' @ rest)"
    by (simp add: appointmentClass_def)
  from a(1) missing given cls show ?thesis by blast
qed

theorem status_fallback_witness:
  "\<exists>a. normalizeAppointment
        \<lparr>apt_start_time = ''10:00'', apt_end_time = Some ''10:40'',
         apt_contacts = Some \<lparr>first_name = ''Ana'', last_name = ''Ruiz''\<rparr>,
         apt_services = Some \<lparr>service_name = ''Corte'', duration_minutes = Some 45\<rparr>,
         apt_status = None\<rparr> = Inr a
     \<and> status a = ''programada''
     \<and> map_of statusRules (''.appointment.'' @ status a)
          = Some [(''background'', ''#f3f4f6''), (''border-color'', ''#9ca3af''),
                  (''color'', ''#374151'')]"
proof -
  let ?c = "\<lparr>first_name = ''Ana'', last_name = ''Ruiz''\<rparr>"
  let ?sv = "\<lparr>service_name = ''Corte'', duration_minutes = Some 45\<rparr>"
  let ?a = "\<lparr>apt_start_time = ''10:00'', apt_end_time = Some ''10:40'',
         apt_contacts = Some ?c, apt_services = Some ?sv, apt_status = None\<rparr>"
  have "truthy_string (apt_end_time ?a) \<or> timeToMinutes (apt_start_time ?a) \<noteq> None"
    by (simp add: truthy_string_def)
  from status_fallback [of ?a ?c ?sv, OF _ _ this] show ?thesis
    by auto
qed

text \<open>
Claim C5 as the specification words it, with the scheduled style for a status outside
  the table, fails for the status \<open>foo\<close>: the appointment keeps it, its class attribute
  is \<^verbatim>\<open>appointment foo\<close>, and neither the table nor the style sheet has an entry for it.
\<close>

theorem status_unknown_counterexample:
  "normalizeAppointment
        \<lparr>apt_start_time = ''10:00'', apt_end_time = Some ''10:40'',
         apt_contacts = Some \<lparr>first_name = ''Ana'', last_name = ''Ruiz''\<rparr>,
         apt_services = Some \<lparr>service_name = ''Corte'', duration_minutes = Some 45\<rparr>,
         apt_status = Some ''foo''\<rparr>
     = Inr \<lparr>start_time = ''10:00'', end_time = ''10:40'', client = ''Ana Ruiz'',
            service = ''Corte'', status = ''foo''\<rparr>
   \<and> map_of APPOINTMENT_STATES ''foo'' = None
   \<and> map_of statusRules ''.appointment.foo'' = None
   \<and> map_option (map (appointmentClass \<lparr>pm_id = ''m1'', pm_name = ''Luz Mora'',
           pm_appointments = [], maxColumns = 1\<rparr>))
         (assignColumns [\<lparr>start_time = ''10:00'', end_time = ''10:40'', client = ''Ana Ruiz'',
            service = ''Corte'', status = ''foo''\<rparr>])
       = Some [''appointment foo  '']"
  by code_simp


section \<open>Geometry of an appointment\<close>

lemma placeAppointments_duration:
  assumes "placeAppointments [] xs = Some ps"
  shows "\<forall>p\<in>set ps. duration p = endMinutes p - startMinutes p"
  using assms
proof (rule placeAppointments_invariant)
  show "\<forall>p\<in>set []. duration p = endMinutes p - startMinutes p" by simp
next
  fix acc :: "placed list" and a :: appointment and s e
  assume "\<forall>p\<in>set acc. duration p = endMinutes p - startMinutes p"
  then show "\<forall>p\<in>set (acc @ [\<lparr>start_time = start_time a, end_time = end_time a,
      client = client a, service = service a, status = status a,
      column = findColumn acc s e 0, startMinutes = s, endMinutes = e,
      duration = e - s\<rparr>]). duration p = endMinutes p - startMinutes p"
    by simp
qed

lemma assignColumns_duration:
  assumes "assignColumns apts = Some ps"
  shows "\<forall>p\<in>set ps. duration p = endMinutes p - startMinutes p"
proof -
  from assms have "placeAppointments [] (sort_key startKey apts) = Some ps"
    by (auto simp: assignColumns_def dest: sortAppointments_Some split: option.splits)
  then show ?thesis by (rule placeAppointments_duration)
qed

lemma those_list_mem:
  "those_list xs = Some ys \<Longrightarrow> y \<in> set ys \<Longrightarrow> Some y \<in> set xs"
  by (induction xs arbitrary: ys) (auto split: option.splits)

lemma windowOfTimes_total:
  "totalMinutes (windowOfTimes ts) = (endHour (windowOfTimes ts) - startHour (windowOfTimes ts)) * 60"
  by (simp add: windowOfTimes_def split: prod.splits)

lemma computeWindow_total:
  "computeWindow ms = Some w \<Longrightarrow> totalMinutes w = (endHour w - startHour w) * 60"
  by (auto simp: computeWindow_def windowOfTimes_total)

lemma layoutEngine_member:
  assumes "layoutEngine memberGroups = Inr lay" and "pm \<in> set (lay_members lay)"
  shows "\<exists>m. processMember m = Some pm"
    and "totalMinutes (lay_window lay) = (endHour (lay_window lay) - startHour (lay_window lay)) * 60"
proof -
  from assms(1) obtain ms w pms where ms: "buildMembers memberGroups = Inr ms"
    and w: "computeWindow ms = Some w" and pms: "those_list (map processMember ms) = Some pms"
    and lay: "lay = \<lparr>lay_window = w, lay_members = pms\<rparr>"
    by (auto simp: layoutEngine_def split: sum.splits option.splits)
  from assms(2) lay have "pm \<in> set pms" by simp
  with pms have "Some pm \<in> set (map processMember ms)"
    by (rule those_list_mem)
  then show "\<exists>m. processMember m = Some pm" by auto
  from w lay show "totalMinutes (lay_window lay)
      = (endHour (lay_window lay) - startHour (lay_window lay)) * 60"
    by (simp add: computeWindow_total)
qed

lemma example_quotients:
  "map_option (\<lambda>x. js_mul x 1200) (js_div 120 600) = Some (8444249301319680, - 45)"
  "map_option (\<lambda>x. js_mul x 1200) (js_div 60 600) = Some (8444249301319680, - 46)"
  by code_simp+

lemma example_values:
  "double_value (8444249301319680, - 45) = 240"
  "double_value (8444249301319680, - 46) = 120"
  by (simp_all add: double_value_def)

text \<open>
Claim C6. For every appointment of every member in the result of the engine, with
  \<open>s\<close> and \<open>e\<close> the minutes of its start and end strings, the top is the quotient of
  \<open>s - startHour * 60\<close> by \<open>totalMinutes\<close> times the track height
  \<open>(endHour - startHour) * 120\<close>, and the height is the quotient of \<open>e - s\<close> by
  \<open>totalMinutes\<close> times the track height, quotient and product being those of doubles;
  \<open>totalMinutes\<close> is 60 for each hour of the window. In a window of 600 minutes, track
  height 1200, an appointment of 60 minutes that starts 120 minutes into the window has
  the top 240 and the height 120 exactly.
\<close>

theorem pixel_geometry:
  "(layoutEngine memberGroups = Inr lay \<and> pm \<in> set (lay_members lay)
      \<and> p \<in> set (pm_appointments pm) \<longrightarrow>
      (\<exists>s e. timeToMinutes (start_time p) = Some s \<and> timeToMinutes (end_time p) = Some e
         \<and> topPosition (lay_window lay) p
             = map_option (\<lambda>x. js_mul x ((endHour (lay_window lay) - startHour (lay_window lay)) * 120))
                 (js_div (s - startHour (lay_window lay) * 60) (totalMinutes (lay_window lay)))
         \<and> height (lay_window lay) p
             = map_option (\<lambda>x. js_mul x ((endHour (lay_window lay) - startHour (lay_window lay)) * 120))
                 (js_div (e - s) (totalMinutes (lay_window lay)))
         \<and> totalMinutes (lay_window lay)
             = (endHour (lay_window lay) - startHour (lay_window lay)) * 60))
   \<and> (totalMinutes w = 600 \<and> endHour w - startHour w = 10
        \<and> startMinutes q - startHour w * 60 = 120 \<and> duration q = 60 \<longrightarrow>
        map_option double_value (topPosition w q) = Some 240
        \<and> map_option double_value (height w q) = Some 120)"
proof (rule conjI; rule impI)
  assume h: "layoutEngine memberGroups = Inr lay \<and> pm \<in> set (lay_members lay)
      \<and> p \<in> set (pm_appointments pm)"
  then obtain m where "processMember m = Some pm"
    using layoutEngine_member(1) by blast
  then have ps: "assignColumns (appointments m) = Some (pm_appointments pm)"
    by (auto simp: processMember_def split: option.splits)
  from assignColumns_properties(1) [OF ps] h have c: "consistent p" by blast
  from assignColumns_duration [OF ps] h have d: "duration p = endMinutes p - startMinutes p"
    by blast
  from h have t: "totalMinutes (lay_window lay)
      = (endHour (lay_window lay) - startHour (lay_window lay)) * 60"
    using layoutEngine_member(2) by blast
  from c d t show "\<exists>s e. timeToMinutes (start_time p) = Some s \<and> timeToMinutes (end_time p) = Some e
         \<and> topPosition (lay_window lay) p
             = map_option (\<lambda>x. js_mul x ((endHour (lay_window lay) - startHour (lay_window lay)) * 120))
                 (js_div (s - startHour (lay_window lay) * 60) (totalMinutes (lay_window lay)))
         \<and> height (lay_window lay) p
             = map_option (\<lambda>x. js_mul x ((endHour (lay_window lay) - startHour (lay_window lay)) * 120))
                 (js_div (e - s) (totalMinutes (lay_window lay)))
         \<and> totalMinutes (lay_window lay)
             = (endHour (lay_window lay) - startHour (lay_window lay)) * 60"
    by (simp add: consistent_def topPosition_def height_def)
next
  assume h: "totalMinutes w = 600 \<and> endHour w - startHour w = 10
        \<and> startMinutes q - startHour w * 60 = 120 \<and> duration q = 60"
  then have "topPosition w q = Some (8444249301319680, - 45)"
    by (simp add: topPosition_def example_quotients)
  moreover from h have "height w q = Some (8444249301319680, - 46)"
    by (simp add: height_def example_quotients)
  ultimately show "map_option double_value (topPosition w q) = Some 240
        \<and> map_option double_value (height w q) = Some 120"
    by (simp add: example_values)
qed


lemma sampleGroup_layout:
  "layoutEngine [sampleGroup] =
     Inr \<lparr>lay_window = \<lparr>startHour = 8, endHour = 18, totalMinutes = 600\<rparr>,
          lay_members =
            [\<lparr>pm_id = ''m1'', pm_name = ''Luz Mora'',
              pm_appointments =
                [\<lparr>start_time = ''09:00'', end_time = ''09:30'', client = ''Ana Ruiz'',
                   service = ''Corte'', status = ''confirmada'', column = 0,
                   startMinutes = 540, endMinutes = 570, duration = 30\<rparr>,
                 \<lparr>start_time = ''10:00'', end_time = ''11:00'', client = ''Eva Sanz'',
                   service = ''Color'', status = ''programada'', column = 0,
                   startMinutes = 600, endMinutes = 660, duration = 60\<rparr>,
                 \<lparr>start_time = ''16:30'', end_time = ''17:00'', client = ''Leo Diaz'',
                   service = ''Barba'', status = ''programada'', column = 0,
                   startMinutes = 990, endMinutes = 1020, duration = 30\<rparr>],
              maxColumns = 1\<rparr>]\<rparr>"
  by code_simp

theorem pixel_geometry_witness:
  "\<exists>lay pm p. layoutEngine [sampleGroup] = Inr lay \<and> pm \<in> set (lay_members lay)
     \<and> p \<in> set (pm_appointments pm)
     \<and> start_time p = ''10:00'' \<and> end_time p = ''11:00''
     \<and> totalMinutes (lay_window lay) = 600
     \<and> endHour (lay_window lay) - startHour (lay_window lay) = 10
     \<and> startMinutes p - startHour (lay_window lay) * 60 = 120 \<and> duration p = 60
     \<and> map_option double_value (topPosition (lay_window lay) p) = Some 240
     \<and> map_option double_value (height (lay_window lay) p) = Some 120"
proof -
  let ?w = "\<lparr>startHour = 8, endHour = 18, totalMinutes = 600\<rparr>"
  let ?p = "\<lparr>start_time = ''10:00'', end_time = ''11:00'', client = ''Eva Sanz'',
                   service = ''Color'', status = ''programada'', column = 0,
                   startMinutes = 600, endMinutes = 660, duration = 60\<rparr>"
  let ?pm = "\<lparr>pm_id = ''m1'', pm_name = ''Luz Mora'',
              pm_appointments =
                [\<lparr>start_time = ''09:00'', end_time = ''09:30'', client = ''Ana Ruiz'',
                   service = ''Corte'', status = ''confirmada'', column = 0,
                   startMinutes = 540, endMinutes = 570, duration = 30\<rparr>,
                 ?p,
                 \<lparr>start_time = ''16:30'', end_time = ''17:00'', client = ''Leo Diaz'',
                   service = ''Barba'', status = ''programada'', column = 0,
                   startMinutes = 990, endMinutes = 1020, duration = 30\<rparr>],
              maxColumns = 1\<rparr>"
  have "totalMinutes ?w = 600 \<and> endHour ?w - startHour ?w = 10
        \<and> startMinutes ?p - startHour ?w * 60 = 120 \<and> duration ?p = 60"
    by simp
  with pixel_geometry [THEN conjunct2, of ?w ?p]
  have "map_option double_value (topPosition ?w ?p) = Some 240
        \<and> map_option double_value (height ?w ?p) = Some 120"
    by blast
  then show ?thesis
    unfolding sampleGroup_layout
    by (intro exI [of _ "\<lparr>lay_window = ?w, lay_members = [?pm]\<rparr>"] exI [of _ ?pm]
          exI [of _ ?p]) simp
qed

end
